theory Spec2Isabelle
  imports Main "HOL-Library.Word"
begin

section \<open>Bytes, failures and the random source\<close>

type_synonym byte = "8 word"
type_synonym bytes = "byte list"

text \<open>
  A Go function of the client either returns or panics (which aborts the process); functions
  with an \<open>error\<close> result may also return an error. Both are values of the model.
\<close>

datatype failure = Err string | Panic string

text \<open>
  A random source (\<open>crypto/rand.Reader\<close>, \<open>c.rand\<close>) is the tape of the bytes it
  is going to deliver. \<open>io.ReadFull\<close> for \<open>n\<close> bytes fails when the source ends
  early.
\<close>

definition readFull :: "nat \<Rightarrow> bytes \<Rightarrow> (bytes \<times> bytes) option" where
  "readFull n tape = (if length tape < n then None else Some (take n tape, drop n tape))"

text \<open>
  Go's \<open>copy(dst[:], src)\<close> into a zeroed array of \<open>n\<close> bytes: the first
  \<open>min n (len src)\<close> bytes of \<open>src\<close>, the rest stays zero. \<open>copy\<close> returns the
  number of bytes copied.
\<close>

definition copy_array :: "nat \<Rightarrow> bytes \<Rightarrow> bytes" where
  "copy_array n src = take n src @ replicate (n - length src) 0"

definition copy_count :: "nat \<Rightarrow> bytes \<Rightarrow> nat" where
  "copy_count n src = min n (length src)"

section \<open>Constants\<close>

definition nonceLen :: nat where
  "nonceLen = 24"

text \<open>
  Modelled from the spec: \<open>box.Overhead\<close> of the NaCl box package, which is not part of
  the repository's files; the spec gives the AEAD overhead as 16 bytes.
\<close>

definition box_Overhead :: nat where
  "box_Overhead = 16"

definition ephemeralBlockLen :: nat where
  "ephemeralBlockLen = nonceLen + 32 + box_Overhead"

section \<open>Data model\<close>

type_synonym Group = bytes
type_synonym Revocation = bytes

text \<open>
  Keys of the group signature scheme (package \<open>bbssig\<close>) are opaque: a key is its group
  and its own material, both as bytes.
\<close>

record MemberKey =
  mk_Group :: Group
  mk_material :: bytes

record PrivateKey =
  pk_Group :: Group
  pk_material :: bytes

record previousTag =
  pt_tag :: bytes
  pt_expired :: int

record previousGroupPrivateKey =
  pg_priv :: PrivateKey
  pg_expired :: int

text \<open>The fields of \<open>pond.Message\<close> that the client's core reads.\<close>

record Message =
  m_Id :: "64 word"
  m_Time :: int
  m_Body :: bytes
  m_MyNextDh :: bytes
  m_InReplyTo :: "64 word option"
  m_SupportedVersion :: "int option"

record Contact =
  ct_id :: "64 word"
  ct_name :: string
  ct_isPending :: bool
  ct_kxsBytes :: bytes
  ct_groupKey :: MemberKey
  ct_myGroupKey :: MemberKey
  ct_previousTags :: "previousTag list"
  ct_generation :: "32 word"
  ct_theirServer :: string
  ct_theirPub :: bytes
  ct_theirIdentityPublic :: bytes
  ct_supportedVersion :: int
  ct_revoked :: bool
  ct_revokedUs :: bool
  ct_lastDHPrivate :: bytes
  ct_currentDHPrivate :: bytes
  ct_theirLastDHPublic :: bytes
  ct_theirCurrentDHPublic :: bytes

record InboxMessage =
  im_id :: "64 word"
  im_read :: bool
  im_receivedTime :: int
  im_from :: "64 word"
  im_sealed :: bytes
  im_message :: "Message option"

text \<open>The requests of the server protocol that the client's core builds.\<close>

record Delivery =
  dl_To :: bytes
  dl_Signature :: bytes
  dl_Generation :: "32 word"
  dl_Message :: bytes

record SignedRevocation_Revocation =
  rr_Revocation :: bytes
  rr_Generation :: "32 word"

record SignedRevocation =
  sr_Revocation :: SignedRevocation_Revocation
  sr_Signature :: bytes

datatype Request =
    Fetch
  | Deliver Delivery
  | RevocationReq SignedRevocation

record queuedMessage =
  qm_request :: Request
  qm_id :: "64 word"
  qm_to :: "64 word"
  qm_server :: string
  qm_created :: int
  qm_sent :: "int option"
  qm_acked :: "int option"
  qm_revocation :: bool
  qm_message :: "Message option"

record Fetched =
  f_Signature :: bytes
  f_Message :: bytes

datatype indicator =
  indicatorNone | indicatorRed | indicatorYellow | indicatorGreen | indicatorBlue | indicatorBlack

text \<open>
  What the client does to the outside (log lines by their format string without quote
  characters, calls of the user interface, saving the state, messages on channels) is
  recorded in the order it happens.
\<close>

datatype event =
    Errorf string
  | Printf string
  | InboxUIAdd "64 word" string string indicator
  | InboxUIRemove "64 word"
  | InboxUISetSubline "64 word" string
  | InboxUISetIndicator "64 word" indicator
  | OutboxUIAdd "64 word" string string indicator
  | OutboxUISetIndicator "64 word" indicator
  | OutboxUISetInsensitive "64 word"
  | ContactsUISetIndicator "64 word" indicator
  | ContactsUISetSubline "64 word" string
  | UpdateWindowTitle
  | Save
  | RevocationUpdateSent "64 word" MemberKey "32 word"
  | UIStateRevocationProcessed
  | MessageSentPosted "64 word" "SignedRevocation option"
  | NewMessagePosted "Fetched option" "Message option"

text \<open>
  The client. \<open>cl_contacts\<close> is the map \<open>c.contacts\<close> as the list of its values
  in the order a \<open>range\<close> over the map visits them; the keys are the contacts' ids.
  \<open>c.queue\<close> and \<open>c.outbox\<close> hold pointers to the same messages; the model keeps
  a copy in each list and updates a message through the list the code reaches it by.
  \<open>cl_rand\<close> is the tape of \<open>c.rand\<close> and \<open>cl_cryptoRand\<close> the one of
  \<open>crypto/rand.Reader\<close>.
\<close>

record client =
  cl_server :: string
  cl_priv :: bytes
  cl_generation :: "32 word"
  cl_groupPriv :: PrivateKey
  cl_prevGroupPrivs :: "previousGroupPrivateKey list"
  cl_contacts :: "Contact list"
  cl_inbox :: "InboxMessage list"
  cl_outbox :: "queuedMessage list"
  cl_queue :: "queuedMessage list"
  cl_rand :: bytes
  cl_cryptoRand :: bytes
  cl_events :: "event list"

definition emit :: "event \<Rightarrow> client \<Rightarrow> client" where
  "emit e c = c\<lparr>cl_events := cl_events c @ [e]\<rparr>"

section \<open>External collaborators\<close>

text \<open>
  The cryptographic primitives and the protocol-buffer codec are libraries outside the
  repository; the model takes them as parameters. \<open>box_Open\<close> takes the box, the nonce,
  the peer's public key and our private key, as \<open>box.Open\<close> does, and \<open>box_Seal\<close>
  the message in place of the box. A function that draws random bytes takes the tape of
  its source and returns the rest of it: \<open>box_GenerateKey\<close> returns the public key,
  the private key and the rest, \<open>member_Sign\<close> (key, tape, digest) the signature and
  the rest, \<open>randId\<close> the id and the rest. \<open>member_Update\<close> returns the verdict of
  \<open>MemberKey.Update\<close> and the key as the call leaves it. \<open>MaxSerializedMessage\<close> is
  the constant of that name of the protocol package.
\<close>

record prims =
  MaxSerializedMessage :: nat
  box_Open :: "bytes \<Rightarrow> bytes \<Rightarrow> bytes \<Rightarrow> bytes \<Rightarrow> bytes option"
  box_Seal :: "bytes \<Rightarrow> bytes \<Rightarrow> bytes \<Rightarrow> bytes \<Rightarrow> bytes"
  box_GenerateKey :: "bytes \<Rightarrow> failure + (bytes \<times> bytes \<times> bytes)"
  marshal_Message :: "Message \<Rightarrow> failure + bytes"
  unmarshal_Message :: "bytes \<Rightarrow> Message option"
  marshal_Revocation :: "SignedRevocation_Revocation \<Rightarrow> failure + bytes"
  sha256 :: "bytes \<Rightarrow> bytes"
  group_Verify :: "Group \<Rightarrow> bytes \<Rightarrow> bytes \<Rightarrow> bool"
  group_Update :: "Group \<Rightarrow> Revocation \<Rightarrow> Group"
  priv_Open :: "PrivateKey \<Rightarrow> bytes \<Rightarrow> bytes option"
  priv_GenerateRevocation :: "PrivateKey \<Rightarrow> MemberKey \<Rightarrow> Revocation"
  member_Tag :: "MemberKey \<Rightarrow> bytes"
  member_Sign :: "MemberKey \<Rightarrow> bytes \<Rightarrow> bytes \<Rightarrow> failure + (bytes \<times> bytes)"
  member_Update :: "MemberKey \<Rightarrow> Revocation \<Rightarrow> bool \<times> MemberKey"
  revocation_Marshal :: "Revocation \<Rightarrow> bytes"
  revocation_Unmarshal :: "bytes \<Rightarrow> Revocation option"
  ed25519_Sign :: "bytes \<Rightarrow> bytes \<Rightarrow> bytes"
  ed25519_Verify :: "bytes \<Rightarrow> bytes \<Rightarrow> bytes \<Rightarrow> bool"
  randId :: "bytes \<Rightarrow> failure + (64 word \<times> bytes)"
  format_time :: "int \<Rightarrow> string"

section \<open>Decryption and the ratchet\<close>

text \<open>
  The rotation that both decryption functions end with: the current private value becomes
  the last one, and a fresh current value is read from \<open>crypto/rand.Reader\<close> (the tape
  \<open>rnd\<close>); a failing read panics.
\<close>

definition rotate :: "Contact \<Rightarrow> bytes \<Rightarrow> failure + (Contact \<times> bytes)" where
  "rotate from rnd =
     (case readFull 32 rnd of
        None \<Rightarrow> Inl (Panic ''unexpected EOF'')
      | Some (fresh, rnd') \<Rightarrow>
          Inr (from\<lparr>ct_lastDHPrivate := ct_currentDHPrivate from,
                    ct_currentDHPrivate := fresh\<rparr>, rnd'))"

definition decryptMessageInner ::
  "prims \<Rightarrow> bytes \<Rightarrow> bytes \<Rightarrow> Contact \<Rightarrow> bytes \<Rightarrow> failure + (bytes option \<times> Contact \<times> bytes)" where
  "decryptMessageInner P sealed nonce from rnd =
     (case box_Open P sealed nonce (ct_theirLastDHPublic from) (ct_lastDHPrivate from) of
        Some plaintext \<Rightarrow> Inr (Some plaintext, from, rnd)
      | None \<Rightarrow>
     (case box_Open P sealed nonce (ct_theirCurrentDHPublic from) (ct_lastDHPrivate from) of
        Some plaintext \<Rightarrow> Inr (Some plaintext, from, rnd)
      | None \<Rightarrow>
     (case (case box_Open P sealed nonce (ct_theirLastDHPublic from) (ct_currentDHPrivate from) of
              Some plaintext \<Rightarrow> Some plaintext
            | None \<Rightarrow>
                box_Open P sealed nonce (ct_theirCurrentDHPublic from) (ct_currentDHPrivate from)) of
        None \<Rightarrow> Inr (None, from, rnd)
      | Some plaintext \<Rightarrow>
          (case rotate from rnd of
             Inl e \<Rightarrow> Inl e
           | Inr (from', rnd') \<Rightarrow> Inr (Some plaintext, from', rnd')))))"

definition decryptMessage ::
  "prims \<Rightarrow> bytes \<Rightarrow> bytes \<Rightarrow> Contact \<Rightarrow> bytes \<Rightarrow> failure + (bytes option \<times> Contact \<times> bytes)" where
  "decryptMessage P sealed nonce from rnd =
     (case decryptMessageInner P sealed nonce from rnd of
        Inl e \<Rightarrow> Inl e
      | Inr (Some plaintext, from1, rnd1) \<Rightarrow> Inr (Some plaintext, from1, rnd1)
      | Inr (None, from1, rnd1) \<Rightarrow>
          (let headerLen = ephemeralBlockLen - nonceLen in
           if length sealed > headerLen then
             (case decryptMessageInner P (take headerLen sealed) nonce from1 rnd1 of
                Inl e \<Rightarrow> Inl e
              | Inr (None, from2, rnd2) \<Rightarrow> Inr (None, from2, rnd2)
              | Inr (Some publicBytes, from2, rnd2) \<Rightarrow>
                  if length publicBytes \<noteq> 32 then Inr (None, from2, rnd2)
                  else
                    (let rest = drop headerLen sealed;
                         innerNonce = copy_array nonceLen rest in
                     if length rest < nonceLen then Inl (Panic ''slice bounds out of range'')
                     else
                       (let inner = drop nonceLen rest;
                            ephemeralPublicKey = copy_array 32 publicBytes in
                        case box_Open P inner innerNonce ephemeralPublicKey (ct_lastDHPrivate from2) of
                          Some plaintext \<Rightarrow> Inr (Some plaintext, from2, rnd2)
                        | None \<Rightarrow>
                            (case box_Open P inner innerNonce ephemeralPublicKey
                                    (ct_currentDHPrivate from2) of
                               None \<Rightarrow> Inr (None, from2, rnd2)
                             | Some plaintext \<Rightarrow>
                                 (case rotate from2 rnd2 of
                                    Inl e \<Rightarrow> Inl e
                                  | Inr (from3, rnd3) \<Rightarrow> Inr (Some plaintext, from3, rnd3))))))
           else Inr (None, from1, rnd1)))"

section \<open>Unsealing an inbox message\<close>

definition le_uint32 :: "bytes \<Rightarrow> nat" where
  "le_uint32 b = unat (b ! 0) + 256 * unat (b ! 1) + 65536 * unat (b ! 2) + 16777216 * unat (b ! 3)"

definition is_duplicate :: "InboxMessage list \<Rightarrow> InboxMessage \<Rightarrow> Contact \<Rightarrow> Message \<Rightarrow> bool" where
  "is_duplicate inbox inboxMsg from msg =
     list_ex (\<lambda>candidate. im_from candidate = ct_id from \<and> im_id candidate \<noteq> im_id inboxMsg \<and>
                (case im_message candidate of None \<Rightarrow> False | Some cm \<Rightarrow> m_Id cm = m_Id msg)) inbox"

fun ack_outbox :: "int \<Rightarrow> 64 word \<Rightarrow> queuedMessage list \<Rightarrow> queuedMessage list \<times> event list" where
  "ack_outbox now i [] = ([], [])"
| "ack_outbox now i (candidate # rest) =
     (let (rest', evs) = ack_outbox now i rest in
      if qm_id candidate = i
      then (candidate\<lparr>qm_acked := Some now\<rparr> # rest', OutboxUISetIndicator i indicatorGreen # evs)
      else (candidate # rest', evs))"

text \<open>
  \<open>unsealMessage\<close> works on the client, the inbox message and the contact it is given
  pointers to; the model returns all three with the verdict. \<open>now\<close> is the clock.
\<close>

definition unsealMessage ::
  "prims \<Rightarrow> int \<Rightarrow> client \<Rightarrow> InboxMessage \<Rightarrow> Contact \<Rightarrow>
     failure + (bool \<times> client \<times> InboxMessage \<times> Contact)" where
  "unsealMessage P now c inboxMsg from =
     (if ct_isPending from then Inl (Panic ''was asked to unseal message from pending contact'')
      else
        (let sealed = im_sealed inboxMsg;
             nonce = copy_array 24 sealed in
         if length sealed < 24 then Inl (Panic ''slice bounds out of range'')
         else
           (case decryptMessage P (drop 24 sealed) nonce from (cl_cryptoRand c) of
              Inl e \<Rightarrow> Inl e
            | Inr (None, from1, rnd1) \<Rightarrow>
                Inr (False, emit (Errorf ''Failed to decrypt message from %s'') (c\<lparr>cl_cryptoRand := rnd1\<rparr>),
                     inboxMsg, from1)
            | Inr (Some plaintext, from1, rnd1) \<Rightarrow>
                (let c1 = c\<lparr>cl_cryptoRand := rnd1\<rparr> in
                 if length plaintext < 4
                 then Inr (False, emit (Errorf ''Plaintext too small to process from %s'') c1, inboxMsg, from1)
                 else
                   (let mLen = le_uint32 (take 4 plaintext);
                        body = drop 4 plaintext in
                    if mLen > length body
                    then Inr (False, emit (Errorf ''Plaintext length incorrect from %s: %d'') c1, inboxMsg, from1)
                    else
                      (case unmarshal_Message P (take mLen body) of
                         None \<Rightarrow>
                           Inr (False, emit (Errorf ''Failed to parse mesage from %s: %s'') c1, inboxMsg, from1)
                       | Some msg \<Rightarrow>
                           if length (m_MyNextDh msg) \<noteq> 32
                           then Inr (False, emit (Errorf ''Message from %s with bad DH length %d'') c1,
                                     inboxMsg, from1)
                           else if is_duplicate (cl_inbox c1) inboxMsg from1 msg
                           then Inr (False, emit (Printf ''Dropping duplicate message from %s'') c1,
                                     inboxMsg, from1)
                           else
                             (let from2 =
                                    (if ct_theirCurrentDHPublic from1 \<noteq> m_MyNextDh msg
                                     then from1\<lparr>ct_theirLastDHPublic := ct_theirCurrentDHPublic from1,
                                                 ct_theirCurrentDHPublic := copy_array 32 (m_MyNextDh msg)\<rparr>
                                     else from1);
                                  c2 =
                                    (case m_InReplyTo msg of
                                       None \<Rightarrow> c1
                                     | Some i \<Rightarrow>
                                         (let (outbox', evs) = ack_outbox now i (cl_outbox c1) in
                                          c1\<lparr>cl_outbox := outbox', cl_events := cl_events c1 @ evs\<rparr>));
                                  from3 =
                                    (case m_SupportedVersion msg of
                                       None \<Rightarrow> from2
                                     | Some v \<Rightarrow> from2\<lparr>ct_supportedVersion := v\<rparr>);
                                  from4 = from3\<lparr>ct_kxsBytes := []\<rparr>;
                                  inboxMsg' = inboxMsg\<lparr>im_message := Some msg, im_sealed := [], im_read := False\<rparr>
                              in Inr (True, c2, inboxMsg', from4))))))))"

section \<open>Processing a fetched message\<close>

text \<open>
  The scan of \<open>c.prevGroupPrivs\<close> in \<open>processFetch\<close>: \<open>None\<close> when no
  previous key verifies the signature (\<open>found\<close> stays false), otherwise what opening
  the signature gave.
\<close>

fun scan_prevGroupPrivs ::
  "prims \<Rightarrow> PrivateKey \<Rightarrow> bytes \<Rightarrow> bytes \<Rightarrow> previousGroupPrivateKey list \<Rightarrow> bytes option option" where
  "scan_prevGroupPrivs P groupPriv digest sig [] = None"
| "scan_prevGroupPrivs P groupPriv digest sig (prev # rest) =
     (if group_Verify P (pk_Group (pg_priv prev)) digest sig
      then Some (priv_Open P groupPriv sig)
      else scan_prevGroupPrivs P groupPriv digest sig rest)"

text \<open>
  The first part of \<open>processFetch\<close>, up to the tag: \<open>None\<close> for a signature that
  no key verifies, \<open>Some None\<close> for one that does not open, \<open>Some (Some tag)\<close>
  otherwise.
\<close>

definition fetch_tag :: "prims \<Rightarrow> client \<Rightarrow> Fetched \<Rightarrow> bytes option option" where
  "fetch_tag P c f =
     (let digest = sha256 P (f_Message f) in
      if group_Verify P (pk_Group (cl_groupPriv c)) digest (f_Signature f)
      then Some (priv_Open P (cl_groupPriv c) (f_Signature f))
      else scan_prevGroupPrivs P (cl_groupPriv c) digest (f_Signature f) (cl_prevGroupPrivs c))"

text \<open>The loop \<open>NextCandidate\<close>: the first contact whose tag, or a previous tag, is the tag.\<close>

fun find_candidate :: "prims \<Rightarrow> bytes \<Rightarrow> Contact list \<Rightarrow> Contact option" where
  "find_candidate P tag [] = None"
| "find_candidate P tag (candidate # rest) =
     (if tag = member_Tag P (ct_groupKey candidate) then Some candidate
      else if list_ex (\<lambda>prevTag. tag = pt_tag prevTag) (ct_previousTags candidate) then Some candidate
      else find_candidate P tag rest)"

text \<open>Writing through the pointer to a contact: the contact of that id is replaced.\<close>

definition store_contact :: "Contact \<Rightarrow> client \<Rightarrow> client" where
  "store_contact from c =
     c\<lparr>cl_contacts := map (\<lambda>x. if ct_id x = ct_id from then from else x) (cl_contacts c)\<rparr>"

text \<open>
  The rest of \<open>processFetch\<close>, from the test of \<open>ok\<close> on: \<open>opened\<close> is the pair
  \<open>tag, ok\<close> that \<open>Open\<close> returned, \<open>None\<close> when \<open>ok\<close> is false.
\<close>

definition process_opened ::
  "prims \<Rightarrow> int \<Rightarrow> client \<Rightarrow> Fetched \<Rightarrow> bytes option \<Rightarrow> failure + client" where
  "process_opened P now c f opened =
     (case opened of
        None \<Rightarrow> Inr (emit (Errorf ''Failed to open group signature'') c)
      | Some tag \<Rightarrow>
          (case find_candidate P tag (cl_contacts c) of
             None \<Rightarrow> Inr (emit (Errorf ''Message from unknown contact. Dropping. Tag: %x'') c)
           | Some from \<Rightarrow>
               if ct_revoked from
               then Inr (emit (Errorf ''Message from revoked contact %s. Dropping'') c)
               else if length (f_Message f) < box_Overhead + 24
               then Inr (emit (Errorf ''Message too small to process from %s'') c)
               else
                 (case randId P (cl_rand c) of
                    Inl e \<Rightarrow> Inl e
                  | Inr (newId, rand') \<Rightarrow>
                      (let c0 = c\<lparr>cl_rand := rand'\<rparr>;
                           inboxMsg = \<lparr>im_id = newId, im_read = False, im_receivedTime = now,
                                       im_from = ct_id from, im_sealed = f_Message f,
                                       im_message = None\<rparr>;
                           finish = (\<lambda>c' m. emit Save (emit UpdateWindowTitle
                                       (c'\<lparr>cl_inbox := cl_inbox c' @ [m]\<rparr>)))
                       in
                       if \<not> ct_isPending from then
                         (case unsealMessage P now c0 inboxMsg from of
                            Inl e \<Rightarrow> Inl e
                          | Inr (False, c1, inboxMsg1, from1) \<Rightarrow> Inr (store_contact from1 c1)
                          | Inr (True, c1, inboxMsg1, from1) \<Rightarrow>
                              (let c2 = store_contact from1 c1 in
                               case im_message inboxMsg1 of
                                 None \<Rightarrow> Inl (Panic ''nil pointer dereference'')
                               | Some msg \<Rightarrow>
                                   if length (m_Body msg) > 0
                                   then Inr (finish (emit (InboxUIAdd (im_id inboxMsg1) (ct_name from1)
                                                       (format_time P (m_Time msg)) indicatorBlue) c2)
                                               inboxMsg1)
                                   else Inr (finish c2 inboxMsg1)))
                       else
                         Inr (finish (emit (InboxUIAdd (im_id inboxMsg) (ct_name from) ''pending''
                                              indicatorRed) c0) inboxMsg)))))"

text \<open>
  \<open>processFetch\<close>: the signature is verified and opened, and the message goes on only
  when some key verified it.
\<close>

definition processFetch :: "prims \<Rightarrow> int \<Rightarrow> client \<Rightarrow> Fetched \<Rightarrow> failure + client" where
  "processFetch P now c f =
     (case fetch_tag P c f of
        None \<Rightarrow> Inr (emit (Errorf ''Received message with bad group signature!'') c)
      | Some opened \<Rightarrow> process_opened P now c f opened)"

section \<open>Unsealing after a key exchange\<close>

text \<open>
  The end of \<open>newContactManual\<close>, once the key exchange has been processed: the
  contact stops being pending, and the loop over \<open>c.inbox\<close> unseals the messages
  from it that are still sealed. The loop goes by the positions of the inbox, all of
  them within it, and writes each message back where it was.
\<close>

fun unseal_pending :: "prims \<Rightarrow> int \<Rightarrow> nat list \<Rightarrow> client \<Rightarrow> Contact \<Rightarrow> failure + (client \<times> Contact)" where
  "unseal_pending P now [] c contact = Inr (c, contact)"
| "unseal_pending P now (k # ks) c contact =
     (let msg = cl_inbox c ! k in
      if im_message msg = None \<and> im_from msg = ct_id contact then
        (case unsealMessage P now c msg contact of
           Inl e \<Rightarrow> Inl e
         | Inr (ok, c1, msg1, contact1) \<Rightarrow>
             (let c2 = c1\<lparr>cl_inbox := (cl_inbox c1)[k := msg1]\<rparr> in
              if \<not> ok then unseal_pending P now ks (emit (InboxUIRemove (im_id msg1)) c2) contact1
              else
                (case im_message msg1 of
                   None \<Rightarrow> Inl (Panic ''nil pointer dereference'')
                 | Some m \<Rightarrow>
                     if length (m_Body m) = 0
                     then unseal_pending P now ks (emit (InboxUIRemove (im_id msg1)) c2) contact1
                     else unseal_pending P now ks
                            (emit UpdateWindowTitle
                               (emit (InboxUISetIndicator (im_id msg1) indicatorBlue)
                                  (emit (InboxUISetSubline (im_id msg1) (format_time P (m_Time m))) c2)))
                            contact1)))
      else unseal_pending P now ks c contact)"

text \<open>The whole of it, up to the call that shows the contact.\<close>

definition unseal_after_key_exchange :: "prims \<Rightarrow> int \<Rightarrow> client \<Rightarrow> Contact \<Rightarrow> failure + client" where
  "unseal_after_key_exchange P now c contact =
     (case unseal_pending P now [0..<length (cl_inbox c)] c (contact\<lparr>ct_isPending := False\<rparr>) of
        Inl e \<Rightarrow> Inl e
      | Inr (c1, contact1) \<Rightarrow>
          Inr (emit Save (emit (ContactsUISetSubline (ct_id contact1) '''') (store_contact contact1 c1))))"

section \<open>Sending\<close>

text \<open>
  Modelled from the spec: \<open>c.randBytes\<close> (the spec's \<open>csprng_fill\<close>), which is
  not among the repository's files: it fills the buffer from \<open>c.rand\<close>. A source that
  ends early panics, as the reads of \<open>crypto/rand.Reader\<close> in the decryption do.
\<close>

definition randBytes :: "nat \<Rightarrow> bytes \<Rightarrow> failure + (bytes \<times> bytes)" where
  "randBytes n tape =
     (case readFull n tape of None \<Rightarrow> Inl (Panic ''unexpected EOF'') | Some r \<Rightarrow> Inr r)"

text \<open>
  Modelled from the spec: \<open>c.enqueue\<close>, which is not among the repository's files: the
  queue is first-in first-out, so a message is enqueued at its tail.
\<close>

definition enqueue :: "queuedMessage \<Rightarrow> client \<Rightarrow> client" where
  "enqueue m c = c\<lparr>cl_queue := cl_queue c @ [m]\<rparr>"

text \<open>\<open>binary.LittleEndian.PutUint32\<close> of \<open>uint32(n)\<close>.\<close>

definition put_uint32 :: "nat \<Rightarrow> bytes" where
  "put_uint32 n = [word_of_nat n, word_of_nat (n div 256), word_of_nat (n div 65536),
                   word_of_nat (n div 16777216)]"

text \<open>
  \<open>copy(buf[off:], src)\<close>, and what \<open>box.Seal(buf[off:off], ...)\<close> does to
  \<open>buf\<close> when it returns \<open>out\<close>: the output is appended to the empty slice at
  \<open>off\<close>, in place when it fits the capacity of the slice, which ends where
  \<open>buf\<close> ends; otherwise it goes to a new array and \<open>buf\<close> stays as it is.
\<close>

definition copy_at :: "nat \<Rightarrow> bytes \<Rightarrow> bytes \<Rightarrow> bytes" where
  "copy_at off src buf =
     take off buf @ take (length buf - off) src @ drop (off + length src) buf"

definition seal_into :: "nat \<Rightarrow> bytes \<Rightarrow> bytes \<Rightarrow> bytes" where
  "seal_into off out buf =
     (if off + length out \<le> length buf
      then take off buf @ out @ drop (off + length out) buf
      else buf)"

text \<open>
  The sealed message that \<open>send\<close> builds for the contact from the serialised message
  and the tape of \<open>c.rand\<close>, with the rest of the tape. \<open>send\<close> comes here
  only with a serialised message of at most \<open>MaxSerializedMessage\<close> bytes.
\<close>

definition seal_message :: "prims \<Rightarrow> Contact \<Rightarrow> bytes \<Rightarrow> bytes \<Rightarrow> failure + (bytes \<times> bytes)" where
  "seal_message P to messageBytes rand0 =
     (case randBytes (MaxSerializedMessage P + 4 - (4 + length messageBytes)) rand0 of
        Inl e \<Rightarrow> Inl e
      | Inr (pad, rand1) \<Rightarrow>
     (let plaintext = put_uint32 (length messageBytes) @ messageBytes @ pad in
      case randBytes 24 rand1 of
        Inl e \<Rightarrow> Inl e
      | Inr (innerNonce, rand2) \<Rightarrow>
     (let sealedLen = nonceLen + length plaintext + box_Overhead in
      if ct_supportedVersion to \<ge> 1 then
        (case box_GenerateKey P rand2 of
           Inl e \<Rightarrow> Inl e
         | Inr (public, private, rand3) \<Rightarrow>
        (case randBytes 24 rand3 of
           Inl e \<Rightarrow> Inl e
         | Inr (outerNonce, rand4) \<Rightarrow>
        (let sealed0 = replicate (sealedLen + ephemeralBlockLen) 0;
             sealed1 = copy_at 0 outerNonce sealed0;
             sealed2 = seal_into nonceLen
                         (box_Seal P public outerNonce (ct_theirCurrentDHPublic to) (ct_lastDHPrivate to))
                         sealed1;
             sealed3 = copy_at ephemeralBlockLen innerNonce sealed2;
             sealed4 = seal_into (ephemeralBlockLen + nonceLen)
                         (box_Seal P plaintext innerNonce (ct_theirCurrentDHPublic to) private)
                         sealed3
         in Inr (sealed4, rand4))))
      else
        (let sealed0 = replicate sealedLen 0;
             sealed1 = copy_at 0 innerNonce sealed0;
             sealed2 = seal_into nonceLen
                         (box_Seal P plaintext innerNonce (ct_theirCurrentDHPublic to) (ct_lastDHPrivate to))
                         sealed1
         in Inr (sealed2, rand2)))))"

text \<open>
  \<open>send\<close>: \<open>Inl (Err e)\<close> is the error it returns, \<open>Inr\<close> the client after it
  returned \<open>nil\<close>.
\<close>

definition send :: "prims \<Rightarrow> client \<Rightarrow> Contact \<Rightarrow> Message \<Rightarrow> failure + client" where
  "send P c to message =
     (case marshal_Message P message of
        Inl e \<Rightarrow> Inl e
      | Inr messageBytes \<Rightarrow>
          if length messageBytes > MaxSerializedMessage P then Inl (Err ''message too large'')
          else
            (case seal_message P to messageBytes (cl_rand c) of
               Inl e \<Rightarrow> Inl e
             | Inr (sealed, rand1) \<Rightarrow>
                 (case member_Sign P (ct_myGroupKey to) rand1 (sha256 P sealed) of
                    Inl e \<Rightarrow> Inl e
                  | Inr (groupSig, rand2) \<Rightarrow>
                      (let request = Deliver \<lparr>dl_To = ct_theirIdentityPublic to, dl_Signature = groupSig,
                                               dl_Generation = ct_generation to, dl_Message = sealed\<rparr>;
                           out = \<lparr>qm_request = request, qm_id = m_Id message, qm_to = ct_id to,
                                  qm_server = ct_theirServer to, qm_created = m_Time message,
                                  qm_sent = None, qm_acked = None, qm_revocation = False,
                                  qm_message = Some message\<rparr>;
                           c1 = enqueue out (c\<lparr>cl_rand := rand2\<rparr>);
                           c2 = (if length (m_Body message) > 0
                                 then emit (OutboxUIAdd (m_Id message) (ct_name to)
                                              (format_time P (qm_created out)) indicatorRed) c1
                                 else c1)
                       in Inr (c2\<lparr>cl_outbox := cl_outbox c2 @ [out]\<rparr>)))))"

section \<open>Revoking a contact\<close>

text \<open>The bytes of \<open>"revocation\\x00"\<close>.\<close>

definition revocationSignaturePrefix :: bytes where
  "revocationSignaturePrefix = [114, 101, 118, 111, 99, 97, 116, 105, 111, 110, 0]"

text \<open>
  \<open>revoke\<close>; \<open>now\<close> and \<open>created\<close> are its two readings of the clock. The copy
  of the group private key that goes through \<open>Marshal\<close> and \<open>Unmarshal\<close> is the key
  as a value.
\<close>

definition revoke :: "prims \<Rightarrow> int \<Rightarrow> int \<Rightarrow> client \<Rightarrow> Contact \<Rightarrow> failure + client" where
  "revoke P now created c to =
     (let to1 = to\<lparr>ct_revoked := True\<rparr>;
          revocation = priv_GenerateRevocation P (cl_groupPriv c) (ct_groupKey to1);
          prevGroupPrivs = cl_prevGroupPrivs c @ [\<lparr>pg_priv = cl_groupPriv c, pg_expired = now\<rparr>];
          contacts = map (\<lambda>contact.
                        if ct_id contact = ct_id to then to1
                        else contact\<lparr>ct_previousTags := ct_previousTags contact @
                                        [\<lparr>pt_tag = member_Tag P (ct_groupKey contact), pt_expired = now\<rparr>],
                                      ct_groupKey := snd (member_Update P (ct_groupKey contact) revocation)\<rparr>)
                       (cl_contacts c);
          rev' = \<lparr>rr_Revocation = revocation_Marshal P revocation, rr_Generation = cl_generation c\<rparr>;
          groupPriv = (cl_groupPriv c)\<lparr>pk_Group := group_Update P (pk_Group (cl_groupPriv c)) revocation\<rparr>;
          generation = cl_generation c + 1
      in
      case marshal_Revocation P rev' of
        Inl e \<Rightarrow> Inl (Panic ''proto.Marshal'')
      | Inr revBytes \<Rightarrow>
          (let signed = revocationSignaturePrefix @ revBytes;
               sig = ed25519_Sign P (cl_priv c) signed;
               signedRev = \<lparr>sr_Revocation = rev', sr_Signature = sig\<rparr>;
               request = RevocationReq signedRev
           in
           case randId P (cl_rand c) of
             Inl e \<Rightarrow> Inl e
           | Inr (newId, rand') \<Rightarrow>
               (let out = \<lparr>qm_request = request, qm_id = newId, qm_to = ct_id to,
                           qm_server = ct_theirServer to, qm_created = created,
                           qm_sent = None, qm_acked = None, qm_revocation = True,
                           qm_message = None\<rparr>;
                    c1 = c\<lparr>cl_generation := generation, cl_groupPriv := groupPriv,
                           cl_prevGroupPrivs := prevGroupPrivs, cl_contacts := contacts,
                           cl_rand := rand'\<rparr>;
                    c2 = enqueue out c1;
                    c3 = emit (OutboxUISetInsensitive newId)
                           (emit (OutboxUIAdd newId ''Revocation'' (format_time P created) indicatorRed) c2)
                in Inr (c3\<lparr>cl_outbox := cl_outbox c3 @ [out]\<rparr>))))"

section \<open>The result of a send\<close>

record messageSendResult =
  msr_id :: "64 word"
  msr_revocation :: "SignedRevocation option"

definition ed25519_SignatureSize :: nat where
  "ed25519_SignatureSize = 64"

text \<open>The queue without the messages to a contact, each of which gets a black indicator.\<close>

fun drop_undeliverable :: "64 word \<Rightarrow> queuedMessage list \<Rightarrow> queuedMessage list \<times> event list" where
  "drop_undeliverable to [] = ([], [])"
| "drop_undeliverable to (m # rest) =
     (let (newQueue, evs) = drop_undeliverable to rest in
      if qm_to m = to then (newQueue, OutboxUISetIndicator (qm_id m) indicatorBlack # evs)
      else (m # newQueue, evs))"

text \<open>\<open>msg.sent = now\<close> for the message that the search by id found: the first one.\<close>

fun set_sent :: "int \<Rightarrow> 64 word \<Rightarrow> queuedMessage list \<Rightarrow> queuedMessage list" where
  "set_sent now i [] = []"
| "set_sent now i (m # rest) =
     (if qm_id m = i then m\<lparr>qm_sent := Some now\<rparr> # rest else m # set_sent now i rest)"

text \<open>
  \<open>processMessageSent\<close>. A message or a contact that is not found is a nil pointer, and
  the first use of it panics.
\<close>

definition processMessageSent :: "prims \<Rightarrow> int \<Rightarrow> client \<Rightarrow> messageSendResult \<Rightarrow> failure + client" where
  "processMessageSent P now c msr =
     (case find (\<lambda>m. qm_id m = msr_id msr) (cl_outbox c) of
        None \<Rightarrow> Inl (Panic ''nil pointer dereference'')
      | Some msg \<Rightarrow>
     (case msr_revocation msr of
        Some revocation \<Rightarrow>
          (case find (\<lambda>x. ct_id x = qm_to msg) (cl_contacts c) of
             None \<Rightarrow> Inl (Panic ''nil pointer dereference'')
           | Some to \<Rightarrow>
               if rr_Generation (sr_Revocation revocation) \<noteq> ct_generation to
               then Inr (emit (Printf ''Message to %s resulted in revocation for generation %d, but current generation is %d'') c)
               else
                 (case marshal_Revocation P (sr_Revocation revocation) of
                    Inl e \<Rightarrow> Inr (emit (Printf ''Failed to marshal revocation message: %s'') c)
                  | Inr revBytes \<Rightarrow>
                      (let revSig = sr_Signature revocation;
                           sig = copy_array ed25519_SignatureSize revSig in
                       if copy_count ed25519_SignatureSize revSig \<noteq> ed25519_SignatureSize
                       then Inr (emit (Printf ''Bad signature length on revocation (%d bytes) from %s'') c)
                       else if \<not> ed25519_Verify P (ct_theirPub to) (revocationSignaturePrefix @ revBytes) sig
                       then Inr (emit (Printf ''Bad signature on revocation from %s'') c)
                       else
                         (case revocation_Unmarshal P (rr_Revocation (sr_Revocation revocation)) of
                            None \<Rightarrow> Inr (emit (Printf ''Failed to parse revocation from %s'') c)
                          | Some rev' \<Rightarrow>
                              (let to1 = to\<lparr>ct_generation := ct_generation to + 1\<rparr>;
                                   (ok, key) = member_Update P (ct_myGroupKey to1) rev';
                                   to2 = to1\<lparr>ct_myGroupKey := key\<rparr>;
                                   c1 =
                                     (if \<not> ok then
                                        (let to3 = to2\<lparr>ct_revokedUs := True\<rparr>;
                                             (newQueue, evs) = drop_undeliverable (qm_to msg) (cl_queue c);
                                             c' = store_contact to3 c
                                         in c'\<lparr>cl_queue := newQueue,
                                               cl_events := cl_events c' @
                                                 [Printf ''Revoked by %s'',
                                                  ContactsUISetIndicator (ct_id to3) indicatorBlack,
                                                  ContactsUISetSubline (ct_id to3) ''has revoked''] @ evs\<rparr>)
                                      else
                                        (let to3 = to2\<lparr>ct_myGroupKey :=
                                                     key\<lparr>mk_Group := group_Update P (mk_Group key) rev'\<rparr>\<rparr>
                                         in emit (RevocationUpdateSent (qm_to msg) (ct_myGroupKey to3)
                                                    (ct_generation to3))
                                              (store_contact to3 c)))
                               in Inr (emit UIStateRevocationProcessed c1))))))
      | None \<Rightarrow>
          (let c1 = c\<lparr>cl_outbox := set_sent now (msr_id msr) (cl_outbox c)\<rparr>;
               c2 = emit (OutboxUISetIndicator (qm_id msg)
                            (if qm_revocation msg then indicatorGreen else indicatorYellow)) c1
           in Inr (emit Save c2))))"

section \<open>The network transaction\<close>

datatype Reply_Status =
    Reply_OK
  | Reply_GENERATION_REVOKED
  | Reply_RESUME_PAST_END_OF_FILE
  | Reply_Other nat

text \<open>
  A reply of the server; every field is optional. \<open>rp_Upload\<close> is the \<open>Upload\<close>
  section with its optional \<open>Resume\<close>, \<open>rp_Download\<close> the \<open>Download\<close> section
  with its \<open>Size\<close>.
\<close>

record Reply =
  rp_Status :: "Reply_Status option"
  rp_Fetched :: "Fetched option"
  rp_Announce :: "Message option"
  rp_Upload :: "int option option"
  rp_Download :: "int option"
  rp_Revocation :: "SignedRevocation option"

text \<open>\<open>replyToError\<close>: the status that makes the error, \<open>None\<close> for \<open>nil\<close>.\<close>

definition replyToError :: "Reply \<Rightarrow> Reply_Status option" where
  "replyToError reply =
     (case rp_Status reply of
        None \<Rightarrow> None
      | Some st \<Rightarrow> if st = Reply_OK then None else Some st)"

text \<open>What the network does in one transaction: where it fails, or the reply.\<close>

datatype exchange = DialFailed | WriteFailed | ReadFailed | Replied Reply

text \<open>
  One round of the loop of \<open>transact\<close>, from the choice of the request to the end of
  the round, with nothing else touching the queue in between.
\<close>

definition transact_round :: "client \<Rightarrow> exchange \<Rightarrow> failure + client" where
  "transact_round c net =
     (let (head, isFetch, c1) =
            (case cl_queue c of
               [] \<Rightarrow> (None, True, emit (Printf ''Starting fetch from home server'') c)
             | h # rest \<Rightarrow>
                 (Some h, False,
                  emit (Printf ''Starting message transmission to %s'') (c\<lparr>cl_queue := rest @ [h]\<rparr>)))
      in
      case net of
        DialFailed \<Rightarrow> Inr (emit (Printf ''Failed to connect to %s: %s'') c1)
      | WriteFailed \<Rightarrow> Inr (emit (Printf ''Failed to send to %s: %s'') c1)
      | ReadFailed \<Rightarrow> Inr (emit (Printf ''Failed to read from %s: %s'') c1)
      | Replied reply \<Rightarrow>
          (case (case rp_Status reply of
                   None \<Rightarrow>
                     if isFetch \<and> (rp_Fetched reply \<noteq> None \<or> rp_Announce reply \<noteq> None)
                     then Inr (emit (NewMessagePosted (rp_Fetched reply) (rp_Announce reply)) c1)
                     else if \<not> isFetch then
                       (case head of
                          None \<Rightarrow> Inl (Panic ''nil pointer dereference'')
                        | Some h \<Rightarrow>
                            if cl_queue c1 = [] then Inl (Panic ''slice bounds out of range'')
                            else Inr (emit (MessageSentPosted (qm_id h) None)
                                        (c1\<lparr>cl_queue := butlast (cl_queue c1)\<rparr>)))
                     else Inr c1
                 | Some st \<Rightarrow>
                     if \<not> isFetch \<and> st = Reply_GENERATION_REVOKED \<and> rp_Revocation reply \<noteq> None
                     then (case head of
                             None \<Rightarrow> Inl (Panic ''nil pointer dereference'')
                           | Some h \<Rightarrow> Inr (emit (MessageSentPosted (qm_id h) (rp_Revocation reply)) c1))
                     else Inr c1) of
             Inl e \<Rightarrow> Inl e
           | Inr c2 \<Rightarrow>
               (case replyToError reply of
                  None \<Rightarrow> Inr c2
                | Some err \<Rightarrow> Inr (emit (Errorf ''Error from server %s: %s'') c2))))"

section \<open>Transfer of a detachment\<close>

datatype transfer =
    uploadTransfer "64 word" int
  | downloadTransfer "64 word" int bytes

datatype transfer_error =
    ServerStatus Reply_Status
  | ErrorText string
  | backgroundCanceledError

text \<open>
  \<open>ProcessReply\<close> of the two transfers: the error, or \<open>isUpload\<close>, \<open>total\<close> and
  \<open>isComplete\<close>. The sizes are \<open>int64\<close> in the code; no sum of the model leaves
  that range before the code has returned. Seeking in the local file fails for a negative
  offset.
\<close>

fun ProcessReply :: "transfer \<Rightarrow> Reply \<Rightarrow> string + (bool \<times> int \<times> bool)" where
  "ProcessReply (uploadTransfer i fileSize) reply =
     (let offset = (case rp_Upload reply of Some (Some resume) \<Rightarrow> resume | _ \<Rightarrow> 0) in
      if offset = fileSize then Inr (False, 0, True)
      else if offset < 0 then Inl ''failed to seek in temp file: %d %d %s''
      else Inr (True, fileSize - offset, False))"
| "ProcessReply (downloadTransfer fileID resume from) reply =
     (case rp_Download reply of
        None \<Rightarrow> Inl ''Reply from server didn't include a download section''
      | Some size' \<Rightarrow>
          if size' < resume then Inl ''Reply from server suggested that the file was truncated''
          else Inr (False, size' - resume, False))"

text \<open>
  One round of the copying loop: the cancel signal was there, or the read ended the
  input, or failed, or gave \<open>n\<close> bytes that were then written or not. The steps say
  what the file does and what the connection does while it is open.
\<close>

datatype io_step = Killed | Eof | ReadError | Chunk nat bool

datatype stream_exit = Canceled | Aborted string | EndOfInput

text \<open>
  The copying loop, from the value of \<open>transferred\<close> it starts with and from whether
  the connection has been closed: how it ends, the value of \<open>transferred\<close> then, and
  whether the connection has been closed; \<open>None\<close> when the steps run out first. The
  loop goes on after it has closed the connection for a failed read of a download or a
  failed write of an upload; a connection that has been closed fails every later read and
  write.
\<close>

fun copy_loop ::
  "bool \<Rightarrow> int \<Rightarrow> int \<Rightarrow> bool \<Rightarrow> io_step list \<Rightarrow> (stream_exit \<times> int \<times> bool) option" where
  "copy_loop isUpload total' transferred closed [] = None"
| "copy_loop isUpload total' transferred closed (Killed # steps) = Some (Canceled, transferred, True)"
| "copy_loop isUpload total' transferred closed (Eof # steps) =
     (if \<not> isUpload \<and> closed then copy_loop isUpload total' transferred True steps
      else Some (EndOfInput, transferred, closed))"
| "copy_loop isUpload total' transferred closed (ReadError # steps) =
     (if isUpload then Some (Aborted ''failed to read during transfer: %s'', transferred, True)
      else copy_loop isUpload total' transferred True steps)"
| "copy_loop isUpload total' transferred closed (Chunk n written # steps) =
     (if \<not> isUpload \<and> closed then copy_loop isUpload total' transferred True steps
      else if \<not> written \<or> (isUpload \<and> closed) then
        (if \<not> isUpload then Some (Aborted ''failed to write during download: %s'', transferred, True)
         else copy_loop isUpload total' transferred True steps)
      else
        (let transferred' = transferred + int n in
         if transferred' > total'
         then Some (Aborted ''transferred more than the expected amount'', transferred', True)
         else copy_loop isUpload total' transferred' closed steps))"

text \<open>
  What happens in one round of the outer loop: the dial fails and the wait for the
  backoff ends by the timer or by the cancel signal; or the request cannot be written; or
  the reply cannot be read; or a reply comes, followed by the steps of the copying loop
  and by whether the server then sends the zero byte that ends an upload.
\<close>

datatype attempt =
    DialError bool
  | RequestError
  | ReplyError
  | Exchange Reply "io_step list" bool

text \<open>
  \<open>Complete\<close>: always true for a download; for an upload, whether the byte read from
  the connection is zero. The buffer holds 1 before the read, so a read that fails, as it
  does on a connection that has been closed, gives false.
\<close>

definition Complete :: "bool \<Rightarrow> bool \<Rightarrow> bool \<Rightarrow> bool" where
  "Complete isUpload closed trailer = (if isUpload then \<not> closed \<and> trailer else True)"

text \<open>
  \<open>transferDetachment\<close> from given values of its variables \<open>transferred\<close> and
  \<open>total\<close> (both 0 when it is called): the error it returns (\<open>None\<close> for
  \<open>nil\<close>) with the two variables at that moment; no result when the attempts run out
  before it returns. Every attempt has a connection of its own.
\<close>

fun transfer_loop ::
  "transfer \<Rightarrow> int \<Rightarrow> int \<Rightarrow> attempt list \<Rightarrow> (transfer_error option \<times> int \<times> int) option" where
  "transfer_loop tr transferred total0 [] = None"
| "transfer_loop tr transferred total0 (DialError killed # rest) =
     (if killed then Some (Some backgroundCanceledError, transferred, total0)
      else transfer_loop tr transferred total0 rest)"
| "transfer_loop tr transferred total0 (RequestError # rest) = transfer_loop tr transferred total0 rest"
| "transfer_loop tr transferred total0 (ReplyError # rest) = transfer_loop tr transferred total0 rest"
| "transfer_loop tr transferred total0 (Exchange reply steps trailer # rest) =
     (if rp_Status reply = Some Reply_RESUME_PAST_END_OF_FILE then Some (None, transferred, total0)
      else
        (case replyToError reply of
           Some st \<Rightarrow> Some (Some (ServerStatus st), transferred, total0)
         | None \<Rightarrow>
             (case ProcessReply tr reply of
                Inl err \<Rightarrow> Some (Some (ErrorText err), transferred, 0)
              | Inr (isUpload, total', isComplete) \<Rightarrow>
                  if isComplete then Some (None, transferred, total')
                  else
                    (case copy_loop isUpload total' transferred False steps of
                       None \<Rightarrow> None
                     | Some (Canceled, transferred', closed) \<Rightarrow>
                         Some (Some backgroundCanceledError, transferred', total')
                     | Some (Aborted err, transferred', closed) \<Rightarrow>
                         Some (Some (ErrorText err), transferred', total')
                     | Some (EndOfInput, transferred', closed) \<Rightarrow>
                         if transferred' < total' then transfer_loop tr transferred' total' rest
                         else if Complete isUpload closed trailer
                         then Some (None, transferred', total')
                         else transfer_loop tr transferred' total' rest))))"

definition transferDetachment :: "transfer \<Rightarrow> attempt list \<Rightarrow> (transfer_error option \<times> int \<times> int) option" where
  "transferDetachment tr attempts = transfer_loop tr 0 0 attempts"

section \<open>A small instance\<close>

text \<open>
  Stand-ins for the libraries, for running the model on concrete inputs: a box is a tag of
  16 bytes made from the two keys, followed by the message; a serialised message is the
  length of its body, the body and the next DH value; a group signature is the byte of the
  group, the byte of the member and the digest.
\<close>

definition toy_key :: "bytes \<Rightarrow> bytes \<Rightarrow> byte" where
  "toy_key pub priv = (case pub of [] \<Rightarrow> 0 | x # _ \<Rightarrow> x) + (case priv of [] \<Rightarrow> 0 | y # _ \<Rightarrow> y)"

definition toy_prims :: prims where
  "toy_prims =
     \<lparr>MaxSerializedMessage = 16384,
      box_Open = (\<lambda>box nonce pub priv.
                    if take 16 box = replicate 16 (toy_key pub priv) then Some (drop 16 box) else None),
      box_Seal = (\<lambda>msg nonce pub priv. replicate 16 (toy_key pub priv) @ msg),
      box_GenerateKey = (\<lambda>tape. case readFull 32 tape of
                                    None \<Rightarrow> Inl (Err ''unexpected EOF'')
                                  | Some (k, rest) \<Rightarrow> Inr (k, k, rest)),
      marshal_Message = (\<lambda>m. Inr (put_uint32 (length (m_Body m)) @ m_Body m @ m_MyNextDh m)),
      unmarshal_Message = (\<lambda>b. if length b < 4 \<or> length b < 4 + le_uint32 (take 4 b) then None
                                else Some \<lparr>m_Id = 1, m_Time = 0,
                                           m_Body = take (le_uint32 (take 4 b)) (drop 4 b),
                                           m_MyNextDh = drop (4 + le_uint32 (take 4 b)) b,
                                           m_InReplyTo = None, m_SupportedVersion = None\<rparr>),
      marshal_Revocation = (\<lambda>r. Inr (put_uint32 (unat (rr_Generation r)) @ rr_Revocation r)),
      sha256 = (\<lambda>b. [word_of_nat (length b)]),
      group_Verify = (\<lambda>group digest sig. case sig of g # t # d \<Rightarrow> group = [g] \<and> d = digest | _ \<Rightarrow> False),
      group_Update = (\<lambda>group r. group @ r),
      priv_Open = (\<lambda>priv sig. case sig of g # t # d \<Rightarrow> Some (t # pk_material priv) | _ \<Rightarrow> None),
      priv_GenerateRevocation = (\<lambda>priv member. mk_material member),
      member_Tag = (\<lambda>k. mk_material k),
      member_Sign = (\<lambda>k tape digest. Inr (mk_Group k @ mk_material k @ digest, tape)),
      member_Update = (\<lambda>k r. (mk_material k \<noteq> r, k\<lparr>mk_Group := mk_Group k @ r\<rparr>)),
      revocation_Marshal = (\<lambda>r. r),
      revocation_Unmarshal = (\<lambda>b. Some b),
      ed25519_Sign = (\<lambda>priv msg. copy_array 64 (priv @ msg)),
      ed25519_Verify = (\<lambda>pub msg sig. sig = copy_array 64 (pub @ msg)),
      randId = (\<lambda>tape. case tape of [] \<Rightarrow> Inl (Panic ''unexpected EOF'') | b # rest \<Rightarrow> Inr (ucast b, rest)),
      format_time = (\<lambda>t. '''')\<rparr>"

definition dh :: "byte \<Rightarrow> bytes" where
  "dh k = k # replicate 31 0"

definition alice :: Contact where
  "alice =
     \<lparr>ct_id = 7, ct_name = ''alice'', ct_isPending = False, ct_kxsBytes = [],
      ct_groupKey = \<lparr>mk_Group = [1], mk_material = [10]\<rparr>,
      ct_myGroupKey = \<lparr>mk_Group = [2], mk_material = [20]\<rparr>,
      ct_previousTags = [], ct_generation = 5, ct_theirServer = ''pondserver://alice'',
      ct_theirPub = dh 30, ct_theirIdentityPublic = dh 31, ct_supportedVersion = 1,
      ct_revoked = False, ct_revokedUs = False,
      ct_lastDHPrivate = dh 1, ct_currentDHPrivate = dh 2,
      ct_theirLastDHPublic = dh 3, ct_theirCurrentDHPublic = dh 4\<rparr>"

definition toy_client :: client where
  "toy_client =
     \<lparr>cl_server = ''pondserver://home'', cl_priv = dh 40, cl_generation = 5,
      cl_groupPriv = \<lparr>pk_Group = [1], pk_material = [50]\<rparr>,
      cl_prevGroupPrivs = [], cl_contacts = [alice], cl_inbox = [], cl_outbox = [], cl_queue = [],
      cl_rand = 8 # replicate 63 8, cl_cryptoRand = replicate 32 9, cl_events = []\<rparr>"

text \<open>A contact whose key exchange is still pending, and a client that has both contacts.\<close>

definition bob :: Contact where
  "bob =
     \<lparr>ct_id = 8, ct_name = ''bob'', ct_isPending = True, ct_kxsBytes = [1],
      ct_groupKey = \<lparr>mk_Group = [1], mk_material = [11, 50]\<rparr>,
      ct_myGroupKey = \<lparr>mk_Group = [], mk_material = []\<rparr>,
      ct_previousTags = [], ct_generation = 0, ct_theirServer = [],
      ct_theirPub = [], ct_theirIdentityPublic = [], ct_supportedVersion = 0,
      ct_revoked = False, ct_revokedUs = False,
      ct_lastDHPrivate = dh 1, ct_currentDHPrivate = dh 1,
      ct_theirLastDHPublic = [], ct_theirCurrentDHPublic = []\<rparr>"

definition two_contacts :: client where
  "two_contacts =
     toy_client\<lparr>cl_contacts := [alice, bob],
                cl_prevGroupPrivs := [\<lparr>pg_priv = \<lparr>pk_Group = [9], pk_material = [60]\<rparr>,
                                       pg_expired = 0\<rparr>]\<rparr>"

text \<open>
  Fetched messages of 40 bytes, signed by the member of tag byte 11: one under the
  client's current group, one under its previous group, one under a group it never had.
\<close>

definition fetched_current :: Fetched where
  "fetched_current = \<lparr>f_Signature = [1, 11, 40], f_Message = replicate 40 0\<rparr>"

definition fetched_previous :: Fetched where
  "fetched_previous = \<lparr>f_Signature = [9, 11, 40], f_Message = replicate 40 0\<rparr>"

definition fetched_unknown :: Fetched where
  "fetched_unknown = \<lparr>f_Signature = [7, 11, 40], f_Message = replicate 40 0\<rparr>"

text \<open>A box under (their current, our current) whose message has a next DH value of 31 bytes.\<close>

definition short_dh_sealed :: bytes where
  "short_dh_sealed = replicate 24 0 @ replicate 16 6 @ [35, 0, 0, 0] @ [0, 0, 0, 0] @ replicate 31 5"

definition short_dh_inbox :: InboxMessage where
  "short_dh_inbox = \<lparr>im_id = 3, im_read = False, im_receivedTime = 0, im_from = 7,
                      im_sealed = short_dh_sealed, im_message = None\<rparr>"

text \<open>
  A second box whose tag also covers the length of what it seals, so that a prefix of a
  box does not open as the whole of it; and a version 1 message of the contact behind
  \<open>alice\<close>, as \<open>send\<close> builds it: the ephemeral public value \<open>dh 50\<close> sealed to
  our current value under their current private value, then the plaintext sealed to our
  current value under the ephemeral private value. Its next DH value has 31 bytes.
\<close>

definition tagged_prims :: prims where
  "tagged_prims =
     toy_prims\<lparr>box_Open := (\<lambda>box nonce pub priv.
                    if 16 \<le> length box \<and>
                       take 16 box = replicate 16 (toy_key pub priv + word_of_nat (length box - 16))
                    then Some (drop 16 box) else None),
                box_Seal := (\<lambda>msg nonce pub priv.
                    replicate 16 (toy_key pub priv + word_of_nat (length msg)) @ msg)\<rparr>"

definition short_dh_plaintext :: bytes where
  "short_dh_plaintext = [35, 0, 0, 0] @ [0, 0, 0, 0] @ replicate 31 5"

definition v1_sealed :: bytes where
  "v1_sealed =
     replicate 24 0 @ box_Seal tagged_prims (dh 50) (replicate 24 0) (dh 2) (dh 4) @
     replicate 24 7 @ box_Seal tagged_prims short_dh_plaintext (replicate 24 7) (dh 2) (dh 50)"

definition v1_inbox :: InboxMessage where
  "v1_inbox = \<lparr>im_id = 4, im_read = False, im_receivedTime = 0, im_from = 7,
               im_sealed = v1_sealed, im_message = None\<rparr>"

text \<open>
  The same message with its outer block sealed under their last private value to our last
  value, and its inner box to our current value.
\<close>

definition recovery_sealed :: bytes where
  "recovery_sealed =
     replicate 24 0 @ box_Seal tagged_prims (dh 50) (replicate 24 0) (dh 1) (dh 3) @
     replicate 24 7 @ box_Seal tagged_prims short_dh_plaintext (replicate 24 7) (dh 2) (dh 50)"

definition recovery_inbox :: InboxMessage where
  "recovery_inbox = \<lparr>im_id = 5, im_read = False, im_receivedTime = 0, im_from = 7,
                     im_sealed = recovery_sealed, im_message = None\<rparr>"

lemma toy_key_dh [simp]: "toy_key (dh a) (dh b) = a + b"
  by (simp add: toy_key_def dh_def)

lemma toy_open [simp]:
  "box_Open toy_prims (replicate 16 k @ m) nonce (dh a) (dh b) = (if k = a + b then Some m else None)"
  by (simp add: toy_prims_def)

lemma short_dh_decryptMessageInner: "decryptMessageInner toy_prims (drop 24 short_dh_sealed) (copy_array 24 short_dh_sealed) alice (replicate 32 9)
   = Inr (Some ([35, 0, 0, 0] @ [0, 0, 0, 0] @ replicate 31 5), alice\<lparr>ct_lastDHPrivate := dh 2, ct_currentDHPrivate := replicate 32 9\<rparr>, [])"
  by (simp add: decryptMessageInner_def short_dh_sealed_def alice_def rotate_def readFull_def)

lemma short_dh_unsealMessage: "unsealMessage toy_prims 0 toy_client short_dh_inbox alice =
   Inr (False, emit (Errorf ''Message from %s with bad DH length %d'') (toy_client\<lparr>cl_cryptoRand := []\<rparr>),
        short_dh_inbox, alice\<lparr>ct_lastDHPrivate := dh 2, ct_currentDHPrivate := replicate 32 9\<rparr>)"
proof -
  have s: "im_sealed short_dh_inbox = short_dh_sealed" "cl_cryptoRand toy_client = replicate 32 9"
     "\<not> ct_isPending alice" "length short_dh_sealed = 79"
    by (simp_all add: short_dh_inbox_def toy_client_def alice_def short_dh_sealed_def)
  have d: "decryptMessage toy_prims (drop 24 short_dh_sealed) (copy_array 24 short_dh_sealed) alice (replicate 32 9)
   = Inr (Some ([35, 0, 0, 0] @ [0, 0, 0, 0] @ replicate 31 5), alice\<lparr>ct_lastDHPrivate := dh 2, ct_currentDHPrivate := replicate 32 9\<rparr>, [])"
    by (simp add: decryptMessage_def short_dh_decryptMessageInner)
  have u: "unmarshal_Message toy_prims (0 # 0 # 0 # 0 # replicate 31 5) =
     Some \<lparr>m_Id = 1, m_Time = 0, m_Body = [], m_MyNextDh = replicate 31 5, m_InReplyTo = None, m_SupportedVersion = None\<rparr>"
    by (simp add: toy_prims_def le_uint32_def)
  show ?thesis
    unfolding unsealMessage_def
    by (simp add: s d le_uint32_def u)
qed

section \<open>The order of the decryption attempts and the ratchet\<close>

text \<open>
  The spec's words for the decryption: the four combinations of their public and our
  private values in the order it lists them, each with whether its private half is the
  current one; the first that opens; the ratchet step; an attempt over a list of
  combinations, followed by the ratchet step when the private half of the one that opened
  is the current one; the two combinations of the ephemeral path; and the steps of the
  decryption, the whole box first, then the outer block of 72 bytes (of which the nonce
  has been split off, which leaves 48), whose ratchet step is done before the inner box is
  tried with the next 24 bytes as its nonce.
\<close>

definition dh_combinations :: "Contact \<Rightarrow> (bytes \<times> bytes \<times> bool) list" where
  "dh_combinations from =
     [(ct_theirLastDHPublic from, ct_lastDHPrivate from, False),
      (ct_theirCurrentDHPublic from, ct_lastDHPrivate from, False),
      (ct_theirLastDHPublic from, ct_currentDHPrivate from, True),
      (ct_theirCurrentDHPublic from, ct_currentDHPrivate from, True)]"

fun first_open :: "prims \<Rightarrow> bytes \<Rightarrow> bytes \<Rightarrow> (bytes \<times> bytes \<times> bool) list \<Rightarrow> (bytes \<times> bool) option" where
  "first_open P sealed nonce [] = None"
| "first_open P sealed nonce ((pub, priv, usesCurrent) # rest) =
     (case box_Open P sealed nonce pub priv of
        Some plaintext \<Rightarrow> Some (plaintext, usesCurrent)
      | None \<Rightarrow> first_open P sealed nonce rest)"

definition ratchet_step :: "Contact \<Rightarrow> bytes \<Rightarrow> Contact" where
  "ratchet_step from fresh =
     from\<lparr>ct_lastDHPrivate := ct_currentDHPrivate from, ct_currentDHPrivate := fresh\<rparr>"

definition ephemeral_combinations :: "bytes \<Rightarrow> Contact \<Rightarrow> (bytes \<times> bytes \<times> bool) list" where
  "ephemeral_combinations ephemeralPublic from =
     [(ephemeralPublic, ct_lastDHPrivate from, False),
      (ephemeralPublic, ct_currentDHPrivate from, True)]"

definition open_and_ratchet ::
  "prims \<Rightarrow> bytes \<Rightarrow> bytes \<Rightarrow> (bytes \<times> bytes \<times> bool) list \<Rightarrow> Contact \<Rightarrow> bytes \<Rightarrow>
     failure + (bytes option \<times> Contact \<times> bytes)" where
  "open_and_ratchet P box nonce combinations from rnd =
     (case first_open P box nonce combinations of
        None \<Rightarrow> Inr (None, from, rnd)
      | Some (plaintext, usedCurrent) \<Rightarrow>
          if usedCurrent then
            (if length rnd < 32 then Inl (Panic ''unexpected EOF'')
             else Inr (Some plaintext, ratchet_step from (take 32 rnd), drop 32 rnd))
          else Inr (Some plaintext, from, rnd))"

definition decryption_steps ::
  "prims \<Rightarrow> bytes \<Rightarrow> bytes \<Rightarrow> Contact \<Rightarrow> bytes \<Rightarrow> failure + (bytes option \<times> Contact \<times> bytes)" where
  "decryption_steps P box nonce from rnd =
     (case first_open P box nonce (dh_combinations from) of
        Some opened \<Rightarrow> open_and_ratchet P box nonce (dh_combinations from) from rnd
      | None \<Rightarrow>
          if length box \<le> 48 then Inr (None, from, rnd)
          else
            (case open_and_ratchet P (take 48 box) nonce (dh_combinations from) from rnd of
               Inl e \<Rightarrow> Inl e
             | Inr (None, from1, rnd1) \<Rightarrow> Inr (None, from1, rnd1)
             | Inr (Some ephemeralPublic, from1, rnd1) \<Rightarrow>
                 if length ephemeralPublic \<noteq> 32 then Inr (None, from1, rnd1)
                 else if length box < 72 then Inl (Panic ''slice bounds out of range'')
                 else open_and_ratchet P (drop 72 box) (take 24 (drop 48 box))
                        (ephemeral_combinations ephemeralPublic from1) from1 rnd1))"

lemma inner_ladder:
  "decryptMessageInner P sealed nonce from rnd =
     (case first_open P sealed nonce (dh_combinations from) of
        None \<Rightarrow> Inr (None, from, rnd)
      | Some (plaintext, usedCurrent) \<Rightarrow>
          if usedCurrent then
            (if length rnd < 32 then Inl (Panic ''unexpected EOF'')
             else Inr (Some plaintext, ratchet_step from (take 32 rnd), drop 32 rnd))
          else Inr (Some plaintext, from, rnd))"
proof (cases "box_Open P sealed nonce (ct_theirLastDHPublic from) (ct_lastDHPrivate from)")
  case (Some a)
  then show ?thesis by (simp add: decryptMessageInner_def dh_combinations_def)
next
  case n1: None
  show ?thesis
  proof (cases "box_Open P sealed nonce (ct_theirCurrentDHPublic from) (ct_lastDHPrivate from)")
    case (Some a)
    with n1 show ?thesis by (simp add: decryptMessageInner_def dh_combinations_def)
  next
    case n2: None
    show ?thesis
    proof (cases "box_Open P sealed nonce (ct_theirLastDHPublic from) (ct_currentDHPrivate from)")
      case (Some a)
      with n1 n2 show ?thesis
        by (simp add: decryptMessageInner_def dh_combinations_def rotate_def readFull_def
            ratchet_step_def)
    next
      case n3: None
      show ?thesis
      proof (cases "box_Open P sealed nonce (ct_theirCurrentDHPublic from) (ct_currentDHPrivate from)")
        case (Some a)
        with n1 n2 n3 show ?thesis
          by (simp add: decryptMessageInner_def dh_combinations_def rotate_def readFull_def
              ratchet_step_def)
      next
        case None
        with n1 n2 n3 show ?thesis by (simp add: decryptMessageInner_def dh_combinations_def)
      qed
    qed
  qed
qed

lemma decryptMessage_ladder:
  assumes "first_open P sealed nonce (dh_combinations from) \<noteq> None"
  shows "decryptMessage P sealed nonce from rnd = decryptMessageInner P sealed nonce from rnd"
proof -
  from assms obtain plaintext usedCurrent
    where f: "first_open P sealed nonce (dh_combinations from) = Some (plaintext, usedCurrent)"
    by (cases "first_open P sealed nonce (dh_combinations from)") auto
  show ?thesis
  proof (cases "usedCurrent \<and> length rnd < 32")
    case True
    then have "decryptMessageInner P sealed nonce from rnd = Inl (Panic ''unexpected EOF'')"
      by (simp add: inner_ladder f)
    then show ?thesis by (simp add: decryptMessage_def)
  next
    case False
    then obtain from1 rnd1 where
      "decryptMessageInner P sealed nonce from rnd = Inr (Some plaintext, from1, rnd1)"
      by (cases usedCurrent) (simp_all add: inner_ladder f)
    then show ?thesis by (simp add: decryptMessage_def)
  qed
qed

lemma decryptMessageInner_steps:
  "decryptMessageInner P sealed nonce from rnd =
     open_and_ratchet P sealed nonce (dh_combinations from) from rnd"
  by (simp add: inner_ladder open_and_ratchet_def)

lemma copy_array_full: "length src = n \<Longrightarrow> copy_array n src = src"
  by (simp add: copy_array_def)

lemma copy_array_long: "n \<le> length src \<Longrightarrow> copy_array n src = take n src"
  by (simp add: copy_array_def)

lemma ephemeral_ladder:
  "(case box_Open P inner innerNonce pub (ct_lastDHPrivate from) of
      Some plaintext \<Rightarrow> Inr (Some plaintext, from, rnd)
    | None \<Rightarrow>
        (case box_Open P inner innerNonce pub (ct_currentDHPrivate from) of
           None \<Rightarrow> Inr (None, from, rnd)
         | Some plaintext \<Rightarrow>
             (case rotate from rnd of
                Inl e \<Rightarrow> Inl e
              | Inr (from3, rnd3) \<Rightarrow> Inr (Some plaintext, from3, rnd3)))) =
   open_and_ratchet P inner innerNonce (ephemeral_combinations pub from) from rnd"
  by (simp add: open_and_ratchet_def ephemeral_combinations_def rotate_def readFull_def
      ratchet_step_def split: option.splits)

lemma decryptMessage_steps:
  "decryptMessage P sealed nonce from rnd = decryption_steps P sealed nonce from rnd"
proof (cases "first_open P sealed nonce (dh_combinations from)")
  case (Some opened)
  then have "decryptMessage P sealed nonce from rnd = decryptMessageInner P sealed nonce from rnd"
    by (simp add: decryptMessage_ladder)
  with Some show ?thesis by (simp add: decryption_steps_def decryptMessageInner_steps)
next
  case None
  then have i1: "decryptMessageInner P sealed nonce from rnd = Inr (None, from, rnd)"
    by (simp add: inner_ladder)
  have k: "ephemeralBlockLen = 72" "nonceLen = 24"
    by (simp_all add: ephemeralBlockLen_def nonceLen_def box_Overhead_def)
  show ?thesis
  proof (cases "length sealed \<le> 48")
    case True
    with None i1 show ?thesis
      by (simp add: decryptMessage_def decryption_steps_def k Let_def)
  next
    case False
    let ?h = "decryptMessageInner P (take 48 sealed) nonce from rnd"
    have hs: "open_and_ratchet P (take 48 sealed) nonce (dh_combinations from) from rnd = ?h"
      by (simp add: decryptMessageInner_steps)
    show ?thesis
    proof (cases ?h)
      case (Inl e)
      with i1 None False show ?thesis
        by (simp add: decryptMessage_def decryption_steps_def hs k Let_def)
    next
      case (Inr x)
      then obtain r2 from2 rnd2 where h: "?h = Inr (r2, from2, rnd2)" by (cases x) auto
      show ?thesis
      proof (cases r2)
        case n: None
        with i1 h None False show ?thesis
          by (simp add: decryptMessage_def decryption_steps_def hs k Let_def)
      next
        case (Some publicBytes)
        show ?thesis
        proof (cases "length publicBytes = 32")
          case ne: False
          with i1 h Some None False show ?thesis
            by (simp add: decryptMessage_def decryption_steps_def hs k Let_def)
        next
          case eq: True
          show ?thesis
          proof (cases "length sealed < 72")
            case True
            then have lt: "length sealed - 48 < 24" by arith
            with i1 h Some None False eq True show ?thesis
              by (simp add: decryptMessage_def decryption_steps_def hs k Let_def)
          next
            case ge: False
            then have c: "copy_array 24 (drop 48 sealed) = take 24 (drop 48 sealed)"
              by (simp add: copy_array_long)
            from ge have nl: "\<not> length sealed - 48 < 24" by arith
            let ?inner = "drop 72 sealed" and ?nn = "take 24 (drop 48 sealed)"
            have dm: "decryptMessage P sealed nonce from rnd =
              (case box_Open P ?inner ?nn publicBytes (ct_lastDHPrivate from2) of
                 Some plaintext \<Rightarrow> Inr (Some plaintext, from2, rnd2)
               | None \<Rightarrow>
                   (case box_Open P ?inner ?nn publicBytes (ct_currentDHPrivate from2) of
                      None \<Rightarrow> Inr (None, from2, rnd2)
                    | Some plaintext \<Rightarrow>
                        (case rotate from2 rnd2 of
                           Inl e \<Rightarrow> Inl e
                         | Inr (from3, rnd3) \<Rightarrow> Inr (Some plaintext, from3, rnd3))))"
              using i1 h Some False eq nl
              by (simp add: decryptMessage_def k Let_def c copy_array_full cong: option.case_cong)
            have ds: "decryption_steps P sealed nonce from rnd =
              open_and_ratchet P ?inner ?nn (ephemeral_combinations publicBytes from2) from2 rnd2"
              using None False h Some eq ge by (simp add: decryption_steps_def hs)
            show ?thesis by (simp only: dm ds ephemeral_ladder)
          qed
        qed
      qed
    qed
  qed
qed

lemma unseal_outcome:
  assumes "unsealMessage P now c m from = Inr (ok, c', m', from')"
  shows "\<exists>r from1 rnd1.
           decryptMessage P (drop 24 (im_sealed m)) (copy_array 24 (im_sealed m)) from (cl_cryptoRand c)
             = Inr (r, from1, rnd1) \<and>
           ct_lastDHPrivate from' = ct_lastDHPrivate from1 \<and>
           ct_currentDHPrivate from' = ct_currentDHPrivate from1 \<and>
           cl_cryptoRand c' = rnd1 \<and> (ok \<longrightarrow> r \<noteq> None)"
  using assms
  by (auto simp: unsealMessage_def Let_def emit_def
      split: if_splits option.splits sum.splits prod.splits)

lemma unseal_fails:
  assumes "\<not> ct_isPending from" "24 \<le> length (im_sealed m)"
    "decryptMessage P (drop 24 (im_sealed m)) (copy_array 24 (im_sealed m)) from (cl_cryptoRand c)
       = Inl e"
  shows "unsealMessage P now c m from = Inl e"
  using assms by (simp add: unsealMessage_def Let_def)

lemma unseal_returns:
  assumes "\<not> ct_isPending from" "24 \<le> length (im_sealed m)"
    "decryptMessage P (drop 24 (im_sealed m)) (copy_array 24 (im_sealed m)) from (cl_cryptoRand c)
       = Inr (r, from1, rnd1)"
  shows "\<exists>ok c' m' from'. unsealMessage P now c m from = Inr (ok, c', m', from')"
  using assms
  by (auto simp: unsealMessage_def Let_def split: option.splits prod.splits)

text \<open>
  C2. For every sender contact and every sealed input, \<open>decryptMessageInner\<close> tries
  \<open>box.Open\<close> with (their last, our last), (their current, our last), (their last, our
  current), (their current, our current), in this order, returns the plaintext of the
  first that opens, and performs the ratchet step (the last private value becomes the
  current one, the current one is read afresh from the random source, which panics when
  it fails) exactly when that combination has our current private value.
  \<open>decryptMessage\<close> is the steps of the spec on every input: the four combinations on
  the whole box; when none opens and the box is longer than 48 bytes, the four
  combinations on its first 48 bytes, with the ratchet step under the same condition, and
  then, for an ephemeral public value of 32 bytes, the rest of the box under the ephemeral
  value with our last and then our current private value, again with the ratchet step
  exactly when the current one opened it. For a contact that is not pending and a sealed
  message of at least 24 bytes, \<open>unsealMessage\<close> fails as these steps fail, and otherwise
  returns with the two private values and the random source as these steps leave them,
  and returns true only when they opened a plaintext.
\<close>

theorem unseal_tries_combinations_in_order:
  "decryptMessageInner P sealed nonce from rnd =
     open_and_ratchet P sealed nonce (dh_combinations from) from rnd
   \<and> decryptMessage P sealed nonce from rnd = decryption_steps P sealed nonce from rnd
   \<and> (\<not> ct_isPending from \<and> 24 \<le> length (im_sealed inboxMsg) \<longrightarrow>
        (case decryption_steps P (drop 24 (im_sealed inboxMsg)) (take 24 (im_sealed inboxMsg)) from
                (cl_cryptoRand c) of
           Inl e \<Rightarrow> unsealMessage P now c inboxMsg from = Inl e
         | Inr (opened, from1, rnd1) \<Rightarrow>
             (\<exists>ok c' inboxMsg' from'.
                unsealMessage P now c inboxMsg from = Inr (ok, c', inboxMsg', from') \<and>
                ct_lastDHPrivate from' = ct_lastDHPrivate from1 \<and>
                ct_currentDHPrivate from' = ct_currentDHPrivate from1 \<and>
                cl_cryptoRand c' = rnd1 \<and> (ok \<longrightarrow> opened \<noteq> None))))"
proof (intro conjI impI)
  show "decryptMessageInner P sealed nonce from rnd =
     open_and_ratchet P sealed nonce (dh_combinations from) from rnd"
    by (rule decryptMessageInner_steps)
  show "decryptMessage P sealed nonce from rnd = decryption_steps P sealed nonce from rnd"
    by (rule decryptMessage_steps)
next
  let ?s = "drop 24 (im_sealed inboxMsg)"
  assume a: "\<not> ct_isPending from \<and> 24 \<le> length (im_sealed inboxMsg)"
  then have n: "copy_array 24 (im_sealed inboxMsg) = take 24 (im_sealed inboxMsg)"
    by (simp add: copy_array_long)
  let ?n = "take 24 (im_sealed inboxMsg)"
  have d: "decryptMessage P ?s (copy_array 24 (im_sealed inboxMsg)) from (cl_cryptoRand c) =
           decryption_steps P ?s ?n from (cl_cryptoRand c)"
    by (simp add: decryptMessage_steps n)
  show "case decryption_steps P ?s ?n from (cl_cryptoRand c) of
           Inl e \<Rightarrow> unsealMessage P now c inboxMsg from = Inl e
         | Inr (opened, from1, rnd1) \<Rightarrow>
             (\<exists>ok c' inboxMsg' from'.
                unsealMessage P now c inboxMsg from = Inr (ok, c', inboxMsg', from') \<and>
                ct_lastDHPrivate from' = ct_lastDHPrivate from1 \<and>
                ct_currentDHPrivate from' = ct_currentDHPrivate from1 \<and>
                cl_cryptoRand c' = rnd1 \<and> (ok \<longrightarrow> opened \<noteq> None))"
  proof (cases "decryption_steps P ?s ?n from (cl_cryptoRand c)")
    case (Inl e)
    with d a unseal_fails [of "from" inboxMsg P c e now] show ?thesis by simp
  next
    case (Inr x)
    then obtain opened from1 rnd1
      where x: "decryption_steps P ?s ?n from (cl_cryptoRand c) = Inr (opened, from1, rnd1)"
      by (cases x) auto
    with d have d1: "decryptMessage P ?s (copy_array 24 (im_sealed inboxMsg)) from (cl_cryptoRand c) =
           Inr (opened, from1, rnd1)" by simp
    from unseal_returns [OF _ _ d1, of now] a obtain ok c' m' from'
      where u: "unsealMessage P now c inboxMsg from = Inr (ok, c', m', from')" by blast
    from unseal_outcome [OF u] d1
    have "ct_lastDHPrivate from' = ct_lastDHPrivate from1"
      "ct_currentDHPrivate from' = ct_currentDHPrivate from1" "cl_cryptoRand c' = rnd1"
      "ok \<longrightarrow> opened \<noteq> None"
      by auto
    with u x show ?thesis by simp
  qed
qed


lemma length_dh: "length (dh k) = 32"
  by (simp add: dh_def)

lemma tagged_open:
  "box_Open tagged_prims (replicate 16 t @ m) nonce (dh a) (dh b) =
     (if t = a + b + word_of_nat (length m) then Some m else None)"
  by (simp add: tagged_prims_def toy_prims_def)

lemma v1_shape:
  "v1_sealed = replicate 24 0 @ replicate 16 38 @ dh 50 @ replicate 24 7 @ replicate 16 91 @
               35 # 0 # 0 # 0 # 0 # 0 # 0 # 0 # replicate 31 5"
  by (simp add: v1_sealed_def tagged_prims_def toy_prims_def short_dh_plaintext_def length_dh)

lemma v1_parts:
  "length v1_sealed = 151"
  "take 24 v1_sealed = replicate 24 0"
  "drop 24 v1_sealed = replicate 16 38 @ dh 50 @ replicate 24 7 @ replicate 16 91 @
               35 # 0 # 0 # 0 # 0 # 0 # 0 # 0 # replicate 31 5"
  "take 48 (drop 24 v1_sealed) = replicate 16 38 @ dh 50"
  "take 24 (drop 72 v1_sealed) = replicate 24 7"
  "drop 96 v1_sealed = replicate 16 91 @ 35 # 0 # 0 # 0 # 0 # 0 # 0 # 0 # replicate 31 5"
  by (simp_all add: v1_shape length_dh)

lemma v1_whole_box:
  "first_open tagged_prims (drop 24 v1_sealed) (take 24 v1_sealed) (dh_combinations alice) = None"
  by (simp add: v1_parts dh_combinations_def alice_def tagged_open length_dh)

lemma v1_header:
  "first_open tagged_prims (take 48 (drop 24 v1_sealed)) (take 24 v1_sealed) (dh_combinations alice)
     = Some (dh 50, True)"
  by (simp add: v1_parts dh_combinations_def alice_def tagged_open length_dh)

lemma v1_inner:
  "first_open tagged_prims (drop 72 (drop 24 v1_sealed)) (take 24 (drop 48 (drop 24 v1_sealed)))
     (ephemeral_combinations (dh 50) (ratchet_step alice (replicate 32 9)))
     = Some (35 # 0 # 0 # 0 # 0 # 0 # 0 # 0 # replicate 31 5, False)"
  by (simp add: v1_parts ephemeral_combinations_def ratchet_step_def alice_def tagged_open length_dh)

lemma v1_decryption:
  "decryption_steps tagged_prims (drop 24 v1_sealed) (take 24 v1_sealed) alice (replicate 32 9) =
     Inr (Some (35 # 0 # 0 # 0 # 0 # 0 # 0 # 0 # replicate 31 5),
          ratchet_step alice (replicate 32 9), [])"
proof -
  have h: "open_and_ratchet tagged_prims (take 48 (drop 24 v1_sealed)) (take 24 v1_sealed)
             (dh_combinations alice) alice (replicate 32 9) =
           Inr (Some (dh 50), ratchet_step alice (replicate 32 9), [])"
    by (simp add: open_and_ratchet_def v1_header)
  have i: "open_and_ratchet tagged_prims (drop 96 v1_sealed) (take 24 (drop 72 v1_sealed))
             (ephemeral_combinations (dh 50) (ratchet_step alice (replicate 32 9)))
             (ratchet_step alice (replicate 32 9)) [] =
           Inr (Some (35 # 0 # 0 # 0 # 0 # 0 # 0 # 0 # replicate 31 5),
                ratchet_step alice (replicate 32 9), [])"
    using v1_inner by (simp add: open_and_ratchet_def)
  show ?thesis
    by (simp add: decryption_steps_def v1_whole_box v1_parts(1) h i length_dh)
qed

lemma recovery_shape:
  "recovery_sealed = replicate 24 0 @ replicate 16 36 @ dh 50 @ replicate 24 7 @ replicate 16 91 @
               35 # 0 # 0 # 0 # 0 # 0 # 0 # 0 # replicate 31 5"
  by (simp add: recovery_sealed_def tagged_prims_def toy_prims_def short_dh_plaintext_def length_dh)

lemma recovery_parts:
  "length recovery_sealed = 151"
  "take 24 recovery_sealed = replicate 24 0"
  "drop 24 recovery_sealed = replicate 16 36 @ dh 50 @ replicate 24 7 @ replicate 16 91 @
               35 # 0 # 0 # 0 # 0 # 0 # 0 # 0 # replicate 31 5"
  "take 48 (drop 24 recovery_sealed) = replicate 16 36 @ dh 50"
  "take 24 (drop 72 recovery_sealed) = replicate 24 7"
  "drop 96 recovery_sealed = replicate 16 91 @ 35 # 0 # 0 # 0 # 0 # 0 # 0 # 0 # replicate 31 5"
  by (simp_all add: recovery_shape length_dh)

lemma recovery_whole_box:
  "first_open tagged_prims (drop 24 recovery_sealed) (take 24 recovery_sealed) (dh_combinations alice)
     = None"
  by (simp add: recovery_parts dh_combinations_def alice_def tagged_open length_dh)

lemma recovery_header:
  "first_open tagged_prims (take 48 (drop 24 recovery_sealed)) (take 24 recovery_sealed)
     (dh_combinations alice) = Some (dh 50, False)"
  by (simp add: recovery_parts dh_combinations_def alice_def tagged_open length_dh)

lemma recovery_inner:
  "first_open tagged_prims (drop 72 (drop 24 recovery_sealed))
     (take 24 (drop 48 (drop 24 recovery_sealed))) (ephemeral_combinations (dh 50) alice)
     = Some (35 # 0 # 0 # 0 # 0 # 0 # 0 # 0 # replicate 31 5, True)"
  by (simp add: recovery_parts ephemeral_combinations_def alice_def tagged_open length_dh)

lemma recovery_decryption:
  "decryption_steps tagged_prims (drop 24 recovery_sealed) (take 24 recovery_sealed) alice
     (replicate 32 9) =
     Inr (Some (35 # 0 # 0 # 0 # 0 # 0 # 0 # 0 # replicate 31 5),
          ratchet_step alice (replicate 32 9), [])"
proof -
  have h: "open_and_ratchet tagged_prims (take 48 (drop 24 recovery_sealed)) (take 24 recovery_sealed)
             (dh_combinations alice) alice (replicate 32 9) =
           Inr (Some (dh 50), alice, replicate 32 9)"
    by (simp add: open_and_ratchet_def recovery_header)
  have i: "open_and_ratchet tagged_prims (drop 96 recovery_sealed) (take 24 (drop 72 recovery_sealed))
             (ephemeral_combinations (dh 50) alice) alice (replicate 32 9) =
           Inr (Some (35 # 0 # 0 # 0 # 0 # 0 # 0 # 0 # replicate 31 5),
                ratchet_step alice (replicate 32 9), [])"
    using recovery_inner by (simp add: open_and_ratchet_def)
  show ?thesis
    by (simp add: decryption_steps_def recovery_whole_box recovery_parts(1) h i length_dh)
qed

text \<open>
  The version 1 message: none of the four combinations opens the whole box, the outer
  block opens under (their current, our current), which ratchets, and the inner box opens
  under the private value that has become the last one. The other message: the outer
  block opens under (their last, our last), and the inner box under our current private
  value, which ratchets.
\<close>

theorem unseal_tries_combinations_in_order_witness:
  "\<not> ct_isPending alice \<and> 24 \<le> length (im_sealed v1_inbox) \<and>
   first_open tagged_prims (drop 24 v1_sealed) (take 24 v1_sealed) (dh_combinations alice) = None \<and>
   first_open tagged_prims (take 48 (drop 24 v1_sealed)) (take 24 v1_sealed) (dh_combinations alice)
     = Some (dh 50, True) \<and>
   decryptMessage tagged_prims (drop 24 v1_sealed) (take 24 v1_sealed) alice (replicate 32 9) =
     Inr (Some (35 # 0 # 0 # 0 # 0 # 0 # 0 # 0 # replicate 31 5),
          alice\<lparr>ct_lastDHPrivate := dh 2, ct_currentDHPrivate := replicate 32 9\<rparr>, []) \<and>
   (\<exists>ok c' inboxMsg' from'.
      unsealMessage tagged_prims 0 toy_client v1_inbox alice = Inr (ok, c', inboxMsg', from') \<and>
      ct_lastDHPrivate from' = dh 2 \<and> ct_currentDHPrivate from' = replicate 32 9 \<and>
      cl_cryptoRand c' = []) \<and>
   24 \<le> length (im_sealed recovery_inbox) \<and>
   first_open tagged_prims (drop 24 recovery_sealed) (take 24 recovery_sealed) (dh_combinations alice)
     = None \<and>
   first_open tagged_prims (take 48 (drop 24 recovery_sealed)) (take 24 recovery_sealed)
     (dh_combinations alice) = Some (dh 50, False) \<and>
   first_open tagged_prims (drop 72 (drop 24 recovery_sealed))
     (take 24 (drop 48 (drop 24 recovery_sealed))) (ephemeral_combinations (dh 50) alice)
     = Some (35 # 0 # 0 # 0 # 0 # 0 # 0 # 0 # replicate 31 5, True) \<and>
   decryptMessage tagged_prims (drop 24 recovery_sealed) (take 24 recovery_sealed) alice
     (replicate 32 9) =
     Inr (Some (35 # 0 # 0 # 0 # 0 # 0 # 0 # 0 # replicate 31 5),
          alice\<lparr>ct_lastDHPrivate := dh 2, ct_currentDHPrivate := replicate 32 9\<rparr>, []) \<and>
   (\<exists>ok c' inboxMsg' from'.
      unsealMessage tagged_prims 0 toy_client recovery_inbox alice = Inr (ok, c', inboxMsg', from') \<and>
      ct_lastDHPrivate from' = dh 2 \<and> ct_currentDHPrivate from' = replicate 32 9 \<and>
      cl_cryptoRand c' = [])"
proof -
  have h: "\<not> ct_isPending alice" "24 \<le> length (im_sealed v1_inbox)"
    "im_sealed v1_inbox = v1_sealed" "cl_cryptoRand toy_client = replicate 32 9"
    "24 \<le> length (im_sealed recovery_inbox)" "im_sealed recovery_inbox = recovery_sealed"
    "ratchet_step alice (replicate 32 9) =
       alice\<lparr>ct_lastDHPrivate := dh 2, ct_currentDHPrivate := replicate 32 9\<rparr>"
    by (simp_all add: alice_def v1_inbox_def v1_parts(1) recovery_inbox_def recovery_parts(1)
        toy_client_def ratchet_step_def)
  have 1: "decryptMessage tagged_prims (drop 24 v1_sealed) (take 24 v1_sealed) alice (replicate 32 9) =
     Inr (Some (35 # 0 # 0 # 0 # 0 # 0 # 0 # 0 # replicate 31 5),
          alice\<lparr>ct_lastDHPrivate := dh 2, ct_currentDHPrivate := replicate 32 9\<rparr>, []) \<and>
   (\<exists>ok c' inboxMsg' from'.
      unsealMessage tagged_prims 0 toy_client v1_inbox alice = Inr (ok, c', inboxMsg', from') \<and>
      ct_lastDHPrivate from' = dh 2 \<and> ct_currentDHPrivate from' = replicate 32 9 \<and>
      cl_cryptoRand c' = [])"
    using unseal_tries_combinations_in_order [of tagged_prims "drop 24 v1_sealed" "take 24 v1_sealed"
        alice "replicate 32 9" v1_inbox 0 toy_client]
    by (simp add: h v1_parts(1) v1_decryption)
  have 2: "decryptMessage tagged_prims (drop 24 recovery_sealed) (take 24 recovery_sealed) alice
     (replicate 32 9) =
     Inr (Some (35 # 0 # 0 # 0 # 0 # 0 # 0 # 0 # replicate 31 5),
          alice\<lparr>ct_lastDHPrivate := dh 2, ct_currentDHPrivate := replicate 32 9\<rparr>, []) \<and>
   (\<exists>ok c' inboxMsg' from'.
      unsealMessage tagged_prims 0 toy_client recovery_inbox alice = Inr (ok, c', inboxMsg', from') \<and>
      ct_lastDHPrivate from' = dh 2 \<and> ct_currentDHPrivate from' = replicate 32 9 \<and>
      cl_cryptoRand c' = [])"
    using unseal_tries_combinations_in_order [of tagged_prims "drop 24 recovery_sealed"
        "take 24 recovery_sealed" alice "replicate 32 9" recovery_inbox 0 toy_client]
    by (simp add: h recovery_parts(1) recovery_decryption)
  from 1 2 h(1,2,5) v1_whole_box v1_header recovery_whole_box recovery_header recovery_inner
  show ?thesis by blast
qed

section \<open>A message with a next DH value of the wrong length\<close>

lemma decryptMessageInner_frame:
  assumes "decryptMessageInner P sealed nonce from rnd = Inr (r, from', rnd')"
  shows "from'\<lparr>ct_lastDHPrivate := ct_lastDHPrivate from,
               ct_currentDHPrivate := ct_currentDHPrivate from\<rparr> = from"
  using assms
  by (auto simp: inner_ladder ratchet_step_def split: option.splits if_splits)

lemma decryptMessageInner_None:
  assumes "decryptMessageInner P sealed nonce from rnd = Inr (None, from', rnd')"
  shows "from' = from"
  using assms
  by (auto simp: inner_ladder split: option.splits if_splits)

lemma decryptMessage_frame:
  assumes "decryptMessage P sealed nonce from rnd = Inr (r, from', rnd')"
  shows "from'\<lparr>ct_lastDHPrivate := ct_lastDHPrivate from,
               ct_currentDHPrivate := ct_currentDHPrivate from\<rparr> = from"
proof (cases "decryptMessageInner P sealed nonce from rnd")
  case (Inl e)
  with assms show ?thesis by (simp add: decryptMessage_def)
next
  case (Inr x)
  then obtain r1 from1 rnd1 where i1: "decryptMessageInner P sealed nonce from rnd = Inr (r1, from1, rnd1)"
    by (cases x) auto
  show ?thesis
  proof (cases r1)
    case (Some pt)
    with assms i1 have "from' = from1" by (simp add: decryptMessage_def)
    with decryptMessageInner_frame [OF i1] show ?thesis by simp
  next
    case None
    with i1 have f1: "from1 = from" by (simp add: decryptMessageInner_None)
    show ?thesis
    proof (cases "length sealed > ephemeralBlockLen - nonceLen")
      case False
      with assms i1 None f1 show ?thesis by (simp add: decryptMessage_def Let_def)
    next
      case True
      let ?h = "take (ephemeralBlockLen - nonceLen) sealed"
      show ?thesis
      proof (cases "decryptMessageInner P ?h nonce from rnd1")
        case (Inl e)
        with assms i1 None f1 True show ?thesis by (simp add: decryptMessage_def Let_def)
      next
        case (Inr y)
        then obtain r2 from2 rnd2 where i2: "decryptMessageInner P ?h nonce from rnd1 = Inr (r2, from2, rnd2)"
          by (cases y) auto
        note fr2 = decryptMessageInner_frame [OF i2]
        have "from' = from2 \<or> (\<exists>fresh. from' = from2\<lparr>ct_lastDHPrivate := ct_currentDHPrivate from2,
                 ct_currentDHPrivate := fresh\<rparr>)"
          using assms i1 None f1 True i2
          by (auto simp: decryptMessage_def Let_def rotate_def readFull_def
              split: option.splits if_splits)
        then show ?thesis
        proof
          assume "from' = from2"
          with fr2 show ?thesis by simp
        next
          assume "\<exists>fresh. from' = from2\<lparr>ct_lastDHPrivate := ct_currentDHPrivate from2,
                 ct_currentDHPrivate := fresh\<rparr>"
          then obtain fresh where "from' = from2\<lparr>ct_lastDHPrivate := ct_currentDHPrivate from2,
                 ct_currentDHPrivate := fresh\<rparr>" ..
          with fr2 show ?thesis by simp
        qed
      qed
    qed
  qed
qed

text \<open>
  C5, as the code has it. When the decrypted payload of an inbound message parses to a
  message whose next DH value is not 32 bytes long, \<open>unsealMessage\<close> drops the
  message: it returns false after logging the bad length, and the inbox message, the
  client (but for the log line and the bytes read from the random source) and every
  field of the contact other than the two private DH values are as before. The two
  private values are as the steps of the decryption left them, whichever path opened the
  plaintext: one ratchet step for each \<open>box.Open\<close> that succeeded with our current
  private value as its private half (on the whole box, on the outer block, on the inner
  box), since the ratchet step is part of the decryption, which comes before the payload
  is looked at.
\<close>

theorem bad_dh_length_drops_message_after_ratchet:
  assumes "\<not> ct_isPending from" and "24 \<le> length (im_sealed inboxMsg)"
    and "decryption_steps P (drop 24 (im_sealed inboxMsg)) (take 24 (im_sealed inboxMsg)) from
           (cl_cryptoRand c) = Inr (Some plaintext, from1, rnd1)"
    and "4 \<le> length plaintext" and "le_uint32 (take 4 plaintext) \<le> length plaintext - 4"
    and "unmarshal_Message P (take (le_uint32 (take 4 plaintext)) (drop 4 plaintext)) = Some msg"
    and "length (m_MyNextDh msg) \<noteq> 32"
  shows "unsealMessage P now c inboxMsg from =
           Inr (False, emit (Errorf ''Message from %s with bad DH length %d'') (c\<lparr>cl_cryptoRand := rnd1\<rparr>),
                inboxMsg, from1)
         \<and> from1\<lparr>ct_lastDHPrivate := ct_lastDHPrivate from,
                  ct_currentDHPrivate := ct_currentDHPrivate from\<rparr> = from"
proof -
  from assms(2) have n: "copy_array 24 (im_sealed inboxMsg) = take 24 (im_sealed inboxMsg)"
    by (simp add: copy_array_long)
  with assms(3) have d: "decryptMessage P (drop 24 (im_sealed inboxMsg))
           (copy_array 24 (im_sealed inboxMsg)) from (cl_cryptoRand c) = Inr (Some plaintext, from1, rnd1)"
    by (simp add: decryptMessage_steps)
  have "unsealMessage P now c inboxMsg from =
           Inr (False, emit (Errorf ''Message from %s with bad DH length %d'') (c\<lparr>cl_cryptoRand := rnd1\<rparr>),
                inboxMsg, from1)"
    using assms(1,2,4,5,6,7) d by (simp add: unsealMessage_def Let_def)
  moreover have "from1\<lparr>ct_lastDHPrivate := ct_lastDHPrivate from,
                  ct_currentDHPrivate := ct_currentDHPrivate from\<rparr> = from"
    using d by (rule decryptMessage_frame)
  ultimately show ?thesis by simp
qed

text \<open>
  The version 1 message, whose next DH value has 31 bytes: the outer block has
  ratcheted, and the message is dropped with both private values changed.
\<close>

theorem bad_dh_length_drops_message_after_ratchet_witness:
  "\<not> ct_isPending alice \<and> 24 \<le> length (im_sealed v1_inbox) \<and>
   first_open tagged_prims (drop 24 v1_sealed) (take 24 v1_sealed) (dh_combinations alice) = None \<and>
   unmarshal_Message tagged_prims (0 # 0 # 0 # 0 # replicate 31 5) =
     Some \<lparr>m_Id = 1, m_Time = 0, m_Body = [], m_MyNextDh = replicate 31 5,
           m_InReplyTo = None, m_SupportedVersion = None\<rparr> \<and>
   unsealMessage tagged_prims 0 toy_client v1_inbox alice =
     Inr (False, emit (Errorf ''Message from %s with bad DH length %d'') (toy_client\<lparr>cl_cryptoRand := []\<rparr>),
          v1_inbox, alice\<lparr>ct_lastDHPrivate := dh 2, ct_currentDHPrivate := replicate 32 9\<rparr>)"
proof -
  let ?pt = "35 # 0 # 0 # 0 # 0 # 0 # 0 # 0 # replicate 31 5"
  let ?msg = "\<lparr>m_Id = 1, m_Time = 0, m_Body = [], m_MyNextDh = replicate 31 5,
           m_InReplyTo = None, m_SupportedVersion = None\<rparr>"
  have h1: "\<not> ct_isPending alice" by (simp add: alice_def)
  have h2: "24 \<le> length (im_sealed v1_inbox)"
    by (simp add: v1_inbox_def v1_parts(1))
  have s: "im_sealed v1_inbox = v1_sealed" "cl_cryptoRand toy_client = replicate 32 9"
    by (simp_all add: v1_inbox_def toy_client_def)
  have h3: "decryption_steps tagged_prims (drop 24 (im_sealed v1_inbox))
              (take 24 (im_sealed v1_inbox)) alice (cl_cryptoRand toy_client) =
            Inr (Some ?pt, ratchet_step alice (replicate 32 9), [])"
    by (simp add: s v1_decryption)
  have h4: "4 \<le> length ?pt" by simp
  have h5: "le_uint32 (take 4 ?pt) \<le> length ?pt - 4" by (simp add: le_uint32_def)
  have h6: "unmarshal_Message tagged_prims (take (le_uint32 (take 4 ?pt)) (drop 4 ?pt)) = Some ?msg"
    by (simp add: tagged_prims_def toy_prims_def le_uint32_def)
  have h7: "length (m_MyNextDh ?msg) \<noteq> 32" by simp
  have u: "unmarshal_Message tagged_prims (0 # 0 # 0 # 0 # replicate 31 5) = Some ?msg"
    by (simp add: tagged_prims_def toy_prims_def le_uint32_def)
  have r: "ratchet_step alice (replicate 32 9) =
       alice\<lparr>ct_lastDHPrivate := dh 2, ct_currentDHPrivate := replicate 32 9\<rparr>"
    by (simp add: ratchet_step_def alice_def)
  show ?thesis
    using bad_dh_length_drops_message_after_ratchet [OF h1 h2 h3 h4 h5 h6 h7, of 0] h1 h2 u
    by (simp add: r v1_whole_box)
qed

text \<open>
  C5 as stated fails: the message below opens under (their current, our current) and
  carries a next DH value of 31 bytes; it is dropped, and the contact's last and current
  private values have both changed.
\<close>

theorem bad_dh_length_state_changes:
  "unsealMessage toy_prims 0 toy_client short_dh_inbox alice =
     Inr (False, emit (Errorf ''Message from %s with bad DH length %d'') (toy_client\<lparr>cl_cryptoRand := []\<rparr>),
          short_dh_inbox, alice\<lparr>ct_lastDHPrivate := dh 2, ct_currentDHPrivate := replicate 32 9\<rparr>)
   \<and> ct_lastDHPrivate (alice\<lparr>ct_lastDHPrivate := dh 2, ct_currentDHPrivate := replicate 32 9\<rparr>)
       \<noteq> ct_lastDHPrivate alice
   \<and> ct_currentDHPrivate (alice\<lparr>ct_lastDHPrivate := dh 2, ct_currentDHPrivate := replicate 32 9\<rparr>)
       \<noteq> ct_currentDHPrivate alice"
proof -
  have "ct_lastDHPrivate alice = dh 1" "ct_currentDHPrivate alice = dh 2"
    by (simp_all add: alice_def)
  moreover have "replicate 32 (9::byte) \<noteq> dh 2"
  proof
    assume "replicate 32 (9::byte) = dh 2"
    then have "hd (replicate 32 (9::byte)) = hd (dh 2)" by simp
    then show False by (simp add: dh_def)
  qed
  ultimately show ?thesis
    by (simp add: short_dh_unsealMessage dh_def)
qed

section \<open>Pending contacts\<close>

lemma decryptMessageInner_panics:
  assumes "decryptMessageInner P sealed nonce from rnd = Inl e"
  shows "e = Panic ''unexpected EOF''"
  using assms by (auto simp: inner_ladder split: option.splits if_splits)

lemma decryptMessage_panics:
  assumes "decryptMessage P sealed nonce from rnd = Inl e"
  shows "e = Panic ''unexpected EOF'' \<or> e = Panic ''slice bounds out of range''"
proof (cases "decryptMessageInner P sealed nonce from rnd")
  case (Inl e1)
  with assms have "e = e1" by (simp add: decryptMessage_def)
  with Inl show ?thesis by (simp add: decryptMessageInner_panics)
next
  case (Inr x)
  then obtain r1 from1 rnd1 where i1: "decryptMessageInner P sealed nonce from rnd = Inr (r1, from1, rnd1)"
    by (cases x) auto
  show ?thesis
  proof (cases r1)
    case (Some pt)
    with assms i1 show ?thesis by (simp add: decryptMessage_def)
  next
    case None
    show ?thesis
    proof (cases "length sealed > ephemeralBlockLen - nonceLen")
      case False
      with assms i1 None show ?thesis by (simp add: decryptMessage_def Let_def)
    next
      case True
      let ?h = "take (ephemeralBlockLen - nonceLen) sealed"
      show ?thesis
      proof (cases "decryptMessageInner P ?h nonce from1 rnd1")
        case (Inl e2)
        with assms i1 None True have "e = e2" by (simp add: decryptMessage_def Let_def)
        with Inl show ?thesis by (simp add: decryptMessageInner_panics)
      next
        case (Inr y)
        then obtain r2 from2 rnd2 where i2: "decryptMessageInner P ?h nonce from1 rnd1 = Inr (r2, from2, rnd2)"
          by (cases y) auto
        show ?thesis
          using assms i1 None True i2
          by (auto simp: decryptMessage_def Let_def rotate_def readFull_def
              split: option.splits if_splits)
      qed
    qed
  qed
qed

lemma unsealMessage_panics:
  assumes "unsealMessage P now c inboxMsg from = Inl e" and "\<not> ct_isPending from"
  shows "e = Panic ''unexpected EOF'' \<or> e = Panic ''slice bounds out of range''"
proof (cases "length (im_sealed inboxMsg) < 24")
  case True
  with assms show ?thesis by (simp add: unsealMessage_def Let_def)
next
  case False
  let ?d = "decryptMessage P (drop 24 (im_sealed inboxMsg)) (copy_array 24 (im_sealed inboxMsg)) from
           (cl_cryptoRand c)"
  show ?thesis
  proof (cases ?d)
    case (Inl e1)
    with assms False have "e = e1" by (simp add: unsealMessage_def Let_def)
    with Inl show ?thesis using decryptMessage_panics by blast
  next
    case (Inr x)
    then obtain r from1 rnd1 where "?d = Inr (r, from1, rnd1)" by (cases x) auto
    from unseal_returns [OF assms(2) _ this, of now] False assms(1) show ?thesis by auto
  qed
qed

lemma decryptMessage_isPending:
  "decryptMessage P sealed nonce from rnd = Inr (r, from', rnd') \<Longrightarrow> ct_isPending from' = ct_isPending from"
proof -
  assume "decryptMessage P sealed nonce from rnd = Inr (r, from', rnd')"
  from decryptMessage_frame [OF this]
  have "ct_isPending (from'\<lparr>ct_lastDHPrivate := ct_lastDHPrivate from,
               ct_currentDHPrivate := ct_currentDHPrivate from\<rparr>) = ct_isPending from" by simp
  then show ?thesis by simp
qed

lemma unsealMessage_isPending:
  assumes "unsealMessage P now c m from = Inr (ok, c', m', from')"
  shows "ct_isPending from' = ct_isPending from"
proof -
  from assms obtain r from1 rnd1 where
    d: "decryptMessage P (drop 24 (im_sealed m)) (copy_array 24 (im_sealed m)) from (cl_cryptoRand c)
          = Inr (r, from1, rnd1)"
    and "ct_isPending from' = ct_isPending from1"
    by (auto simp: unsealMessage_def Let_def split: if_splits option.splits sum.splits prod.splits)
  with decryptMessage_isPending [OF d] show ?thesis by simp
qed

lemma unseal_pending_no_pending_panic:
  "\<not> ct_isPending contact \<Longrightarrow>
   unseal_pending P now ks c contact \<noteq> Inl (Panic ''was asked to unseal message from pending contact'')"
proof (induction ks arbitrary: c contact)
  case Nil
  then show ?case by simp
next
  case (Cons k ks)
  let ?p = "Panic ''was asked to unseal message from pending contact''"
  let ?msg = "cl_inbox c ! k"
  show ?case
  proof (cases "im_message ?msg = None \<and> im_from ?msg = ct_id contact")
    case False
    with Cons show ?thesis by (auto simp: Let_def)
  next
    case True
    show ?thesis
    proof (cases "unsealMessage P now c ?msg contact")
      case (Inl e)
      from unsealMessage_panics [OF Inl Cons.prems] have "e \<noteq> ?p" by auto
      with True Inl show ?thesis by (simp add: Let_def)
    next
      case (Inr x)
      then obtain ok c1 msg1 contact1 where
        u: "unsealMessage P now c ?msg contact = Inr (ok, c1, msg1, contact1)"
        by (cases x) auto
      from unsealMessage_isPending [OF u] Cons.prems have np: "\<not> ct_isPending contact1" by simp
      from Cons.IH [OF np] True u show ?thesis
        by (auto simp: Let_def split: option.splits)
    qed
  qed
qed

text \<open>
  C9. \<open>unsealMessage\<close> is never run on a pending contact. Called with one, it panics,
  whatever the contact and the message. The fetch path does not call it then: for a
  fetched message whose tag resolves to a pending contact, \<open>processFetch\<close> stores the
  message still sealed under a fresh id, shows it as pending and leaves the contacts as
  they are; and no run of \<open>processFetch\<close> ends in that panic (unless drawing the id
  itself did). The other caller, the loop at the end of \<open>newContactManual\<close>, clears
  the pending flag before it unseals, and never ends in that panic either.
\<close>

theorem unseal_never_on_pending_contact:
  "(ct_isPending from \<longrightarrow>
      unsealMessage P now c inboxMsg from =
        Inl (Panic ''was asked to unseal message from pending contact''))
   \<and> (fetch_tag P c f = Some (Some tag) \<and> find_candidate P tag (cl_contacts c) = Some sender \<and>
        ct_isPending sender \<and> \<not> ct_revoked sender \<and> box_Overhead + 24 \<le> length (f_Message f) \<and>
        randId P (cl_rand c) = Inr (newId, rand') \<longrightarrow>
        processFetch P now c f =
          Inr (c\<lparr>cl_rand := rand',
                 cl_events := cl_events c @
                   [InboxUIAdd newId (ct_name sender) ''pending'' indicatorRed, UpdateWindowTitle, Save],
                 cl_inbox := cl_inbox c @
                   [\<lparr>im_id = newId, im_read = False, im_receivedTime = now, im_from = ct_id sender,
                     im_sealed = f_Message f, im_message = None\<rparr>]\<rparr>))
   \<and> (randId P (cl_rand c) \<noteq> Inl (Panic ''was asked to unseal message from pending contact'') \<longrightarrow>
        processFetch P now c f \<noteq> Inl (Panic ''was asked to unseal message from pending contact''))
   \<and> unseal_after_key_exchange P now c contact \<noteq>
        Inl (Panic ''was asked to unseal message from pending contact'')"
proof (intro conjI impI)
  have "unseal_pending P now [0..<length (cl_inbox c)] c (contact\<lparr>ct_isPending := False\<rparr>) \<noteq>
        Inl (Panic ''was asked to unseal message from pending contact'')"
    by (rule unseal_pending_no_pending_panic) simp
  then show "unseal_after_key_exchange P now c contact \<noteq>
        Inl (Panic ''was asked to unseal message from pending contact'')"
    by (auto simp: unseal_after_key_exchange_def split: sum.splits)
next
  assume "ct_isPending from"
  then show "unsealMessage P now c inboxMsg from =
        Inl (Panic ''was asked to unseal message from pending contact'')"
    by (simp add: unsealMessage_def)
next
  assume "fetch_tag P c f = Some (Some tag) \<and> find_candidate P tag (cl_contacts c) = Some sender \<and>
        ct_isPending sender \<and> \<not> ct_revoked sender \<and> box_Overhead + 24 \<le> length (f_Message f) \<and>
        randId P (cl_rand c) = Inr (newId, rand')"
  then show "processFetch P now c f =
          Inr (c\<lparr>cl_rand := rand',
                 cl_events := cl_events c @
                   [InboxUIAdd newId (ct_name sender) ''pending'' indicatorRed, UpdateWindowTitle, Save],
                 cl_inbox := cl_inbox c @
                   [\<lparr>im_id = newId, im_read = False, im_receivedTime = now, im_from = ct_id sender,
                     im_sealed = f_Message f, im_message = None\<rparr>]\<rparr>)"
    by (simp add: processFetch_def process_opened_def Let_def emit_def)
next
  let ?p = "Panic ''was asked to unseal message from pending contact''"
  assume r: "randId P (cl_rand c) \<noteq> Inl ?p"
  show "processFetch P now c f \<noteq> Inl ?p"
  proof
    assume a: "processFetch P now c f = Inl ?p"
    from a obtain tag where t: "fetch_tag P c f = Some (Some tag)"
      by (auto simp: processFetch_def process_opened_def split: option.splits)
    from a t obtain sender where s: "find_candidate P tag (cl_contacts c) = Some sender"
      by (auto simp: processFetch_def process_opened_def split: option.splits)
    from a t s have g: "\<not> ct_revoked sender" "\<not> length (f_Message f) < box_Overhead + 24"
      by (auto simp: processFetch_def process_opened_def split: if_splits)
    from a t s g r obtain newId rand' where i: "randId P (cl_rand c) = Inr (newId, rand')"
      by (cases "randId P (cl_rand c)") (auto simp: processFetch_def process_opened_def)
    from a t s g i have np: "\<not> ct_isPending sender"
      by (auto simp: processFetch_def process_opened_def Let_def split: if_splits)
    let ?m = "\<lparr>im_id = newId, im_read = False, im_receivedTime = now, im_from = ct_id sender,
               im_sealed = f_Message f, im_message = None\<rparr>"
    let ?u = "unsealMessage P now (c\<lparr>cl_rand := rand'\<rparr>) ?m sender"
    show False
    proof (cases ?u)
      case (Inl e)
      with a t s g i np have "e = ?p" by (simp add: processFetch_def process_opened_def Let_def)
      with unsealMessage_panics [OF Inl np] show False by simp
    next
      case (Inr x)
      then obtain ok c1 m1 from1 where "?u = Inr (ok, c1, m1, from1)" by (cases x) auto
      with a t s g i np show False
        by (cases ok) (auto simp: processFetch_def process_opened_def Let_def split: option.splits if_splits)
    qed
  qed
qed

lemma toy_fetch_tag_current: "fetch_tag toy_prims two_contacts fetched_current = Some (Some [11, 50])"
  by (simp add: fetch_tag_def toy_prims_def two_contacts_def toy_client_def fetched_current_def)

lemma toy_find_bob: "find_candidate toy_prims [11, 50] (cl_contacts two_contacts) = Some bob"
  by (simp add: two_contacts_def toy_prims_def alice_def bob_def)

lemma toy_randId: "randId toy_prims (cl_rand two_contacts) = Inr (8, replicate 63 8)"
  by (simp add: two_contacts_def toy_client_def toy_prims_def)

theorem unseal_never_on_pending_contact_witness:
  "ct_isPending bob \<and>
   unsealMessage toy_prims 0 two_contacts short_dh_inbox bob =
     Inl (Panic ''was asked to unseal message from pending contact'') \<and>
   fetch_tag toy_prims two_contacts fetched_current = Some (Some [11, 50]) \<and>
   find_candidate toy_prims [11, 50] (cl_contacts two_contacts) = Some bob \<and>
   \<not> ct_revoked bob \<and> box_Overhead + 24 \<le> length (f_Message fetched_current) \<and>
   randId toy_prims (cl_rand two_contacts) = Inr (8, replicate 63 8) \<and>
   processFetch toy_prims 0 two_contacts fetched_current =
     Inr (two_contacts\<lparr>cl_rand := replicate 63 8,
            cl_events := cl_events two_contacts @
              [InboxUIAdd 8 (ct_name bob) ''pending'' indicatorRed, UpdateWindowTitle, Save],
            cl_inbox := cl_inbox two_contacts @
              [\<lparr>im_id = 8, im_read = False, im_receivedTime = 0, im_from = ct_id bob,
                im_sealed = f_Message fetched_current, im_message = None\<rparr>]\<rparr>)"
proof -
  have h: "ct_isPending bob" "\<not> ct_revoked bob" by (simp_all add: bob_def)
  have l: "box_Overhead + 24 \<le> length (f_Message fetched_current)"
    by (simp add: box_Overhead_def fetched_current_def)
  show ?thesis
    using unseal_never_on_pending_contact [of bob toy_prims 0 two_contacts short_dh_inbox
        fetched_current "[11, 50]" bob 8 "replicate 63 8"]
    by (simp add: h l toy_fetch_tag_current toy_find_bob toy_randId)
qed

section \<open>Signatures of a previous generation\<close>

lemma scan_prevGroupPrivs_found:
  "\<exists>prev \<in> set prevs. group_Verify P (pk_Group (pg_priv prev)) digest sig \<Longrightarrow>
   scan_prevGroupPrivs P groupPriv digest sig prevs = Some (priv_Open P groupPriv sig)"
  by (induction prevs) auto

lemma scan_prevGroupPrivs_none:
  "\<forall>prev \<in> set prevs. \<not> group_Verify P (pk_Group (pg_priv prev)) digest sig \<Longrightarrow>
   scan_prevGroupPrivs P groupPriv digest sig prevs = None"
  by (induction prevs) auto

text \<open>
  C7. When the group signature of a fetched message does not verify under the current
  group private key: if it verifies under some entry of \<open>c.prevGroupPrivs\<close>, the tag
  is what \<open>Open\<close> of the current group private key gives for the signature, and
  \<open>processFetch\<close> goes on with that tag and no other (the entry that verified takes no
  part in it), so that a signature which the current key does not open ends it with the
  log line of a failed \<open>Open\<close>; if it verifies under no entry, the message is dropped
  with a log line and the client is otherwise as before.
\<close>

theorem previous_generation_opens_under_current_key:
  "\<not> group_Verify P (pk_Group (cl_groupPriv c)) (sha256 P (f_Message f)) (f_Signature f) \<longrightarrow>
     ((\<exists>prev \<in> set (cl_prevGroupPrivs c).
          group_Verify P (pk_Group (pg_priv prev)) (sha256 P (f_Message f)) (f_Signature f)) \<longrightarrow>
        fetch_tag P c f = Some (priv_Open P (cl_groupPriv c) (f_Signature f)) \<and>
        processFetch P now c f =
          process_opened P now c f (priv_Open P (cl_groupPriv c) (f_Signature f)) \<and>
        (priv_Open P (cl_groupPriv c) (f_Signature f) = None \<longrightarrow>
           processFetch P now c f = Inr (emit (Errorf ''Failed to open group signature'') c)) \<and>
        (\<forall>tag. priv_Open P (cl_groupPriv c) (f_Signature f) = Some tag \<and>
               find_candidate P tag (cl_contacts c) = None \<longrightarrow>
           processFetch P now c f =
             Inr (emit (Errorf ''Message from unknown contact. Dropping. Tag: %x'') c))) \<and>
     ((\<forall>prev \<in> set (cl_prevGroupPrivs c).
          \<not> group_Verify P (pk_Group (pg_priv prev)) (sha256 P (f_Message f)) (f_Signature f)) \<longrightarrow>
        fetch_tag P c f = None \<and>
        processFetch P now c f = Inr (emit (Errorf ''Received message with bad group signature!'') c))"
  by (simp add: fetch_tag_def processFetch_def process_opened_def
      scan_prevGroupPrivs_found scan_prevGroupPrivs_none)

text \<open>
  A signature of the previous generation from the pending contact \<open>bob\<close>: the current
  key opens it to the tag \<open>[11, 50]\<close> of \<open>bob\<close>, and the message is filed as pending;
  the previous key, which verified it, would open it to \<open>[11, 60]\<close>, the tag of no contact.
\<close>

theorem previous_generation_opens_under_current_key_witness:
  "\<not> group_Verify toy_prims (pk_Group (cl_groupPriv two_contacts))
       (sha256 toy_prims (f_Message fetched_previous)) (f_Signature fetched_previous) \<and>
   group_Verify toy_prims [9] (sha256 toy_prims (f_Message fetched_previous)) (f_Signature fetched_previous) \<and>
   fetch_tag toy_prims two_contacts fetched_previous = Some (Some [11, 50]) \<and>
   priv_Open toy_prims \<lparr>pk_Group = [9], pk_material = [60]\<rparr> (f_Signature fetched_previous) = Some [11, 60] \<and>
   find_candidate toy_prims [11, 60] (cl_contacts two_contacts) = None \<and>
   processFetch toy_prims 0 two_contacts fetched_previous =
     Inr (two_contacts\<lparr>cl_rand := replicate 63 8,
            cl_events := cl_events two_contacts @
              [InboxUIAdd 8 (ct_name bob) ''pending'' indicatorRed, UpdateWindowTitle, Save],
            cl_inbox := cl_inbox two_contacts @
              [\<lparr>im_id = 8, im_read = False, im_receivedTime = 0, im_from = ct_id bob,
                im_sealed = f_Message fetched_previous, im_message = None\<rparr>]\<rparr>) \<and>
   \<not> group_Verify toy_prims (pk_Group (cl_groupPriv two_contacts))
       (sha256 toy_prims (f_Message fetched_unknown)) (f_Signature fetched_unknown) \<and>
   \<not> group_Verify toy_prims [9] (sha256 toy_prims (f_Message fetched_unknown)) (f_Signature fetched_unknown) \<and>
   processFetch toy_prims 0 two_contacts fetched_unknown =
     Inr (emit (Errorf ''Received message with bad group signature!'') two_contacts)"
proof -
  have c: "cl_groupPriv two_contacts = \<lparr>pk_Group = [1], pk_material = [50]\<rparr>"
    "cl_prevGroupPrivs two_contacts = [\<lparr>pg_priv = \<lparr>pk_Group = [9], pk_material = [60]\<rparr>, pg_expired = 0\<rparr>]"
    by (simp_all add: two_contacts_def toy_client_def)
  have v: "\<not> group_Verify toy_prims [1] (sha256 toy_prims (f_Message fetched_previous)) (f_Signature fetched_previous)"
    "group_Verify toy_prims [9] (sha256 toy_prims (f_Message fetched_previous)) (f_Signature fetched_previous)"
    "\<not> group_Verify toy_prims [1] (sha256 toy_prims (f_Message fetched_unknown)) (f_Signature fetched_unknown)"
    "\<not> group_Verify toy_prims [9] (sha256 toy_prims (f_Message fetched_unknown)) (f_Signature fetched_unknown)"
    by (simp_all add: toy_prims_def fetched_previous_def fetched_unknown_def)
  have p: "priv_Open toy_prims \<lparr>pk_Group = [1], pk_material = [50]\<rparr> (f_Signature fetched_previous) = Some [11, 50]"
    "priv_Open toy_prims \<lparr>pk_Group = [9], pk_material = [60]\<rparr> (f_Signature fetched_previous) = Some [11, 60]"
    by (simp_all add: toy_prims_def fetched_previous_def)
  have n: "find_candidate toy_prims [11, 60] (cl_contacts two_contacts) = None"
    by (simp add: two_contacts_def toy_prims_def alice_def bob_def)
  have h: "ct_isPending bob" "\<not> ct_revoked bob" by (simp_all add: bob_def)
  have l: "\<not> length (f_Message fetched_previous) < box_Overhead + 24"
    by (simp add: box_Overhead_def fetched_previous_def)
  have o: "process_opened toy_prims 0 two_contacts fetched_previous (Some [11, 50]) =
     Inr (two_contacts\<lparr>cl_rand := replicate 63 8,
            cl_events := cl_events two_contacts @
              [InboxUIAdd 8 (ct_name bob) ''pending'' indicatorRed, UpdateWindowTitle, Save],
            cl_inbox := cl_inbox two_contacts @
              [\<lparr>im_id = 8, im_read = False, im_receivedTime = 0, im_from = ct_id bob,
                im_sealed = f_Message fetched_previous, im_message = None\<rparr>]\<rparr>)"
    by (simp add: process_opened_def toy_find_bob toy_randId h l Let_def emit_def)
  show ?thesis
    using previous_generation_opens_under_current_key [of toy_prims two_contacts fetched_previous 0]
      previous_generation_opens_under_current_key [of toy_prims two_contacts fetched_unknown 0]
    by (simp add: c v p n o)
qed

section \<open>The length of a sealed message\<close>

text \<open>The request of the message at the tail of the queue, where \<open>enqueue\<close> puts it.\<close>

definition enqueued_request :: "client \<Rightarrow> Request option" where
  "enqueued_request c = (if cl_queue c = [] then None else Some (qm_request (last (cl_queue c))))"

text \<open>The two lengths of a sealed message that the spec gives.\<close>

definition sealed_length :: "prims \<Rightarrow> Contact \<Rightarrow> nat" where
  "sealed_length P to =
     (if ct_supportedVersion to \<ge> 1
      then 24 + 32 + 16 + 24 + 4 + MaxSerializedMessage P + 16
      else 24 + 4 + MaxSerializedMessage P + 16)"

lemma length_copy_at [simp]: "length (copy_at off src buf) = length buf"
  by (simp add: copy_at_def)

lemma length_seal_into [simp]: "length (seal_into off out buf) = length buf"
  by (simp add: seal_into_def)

lemma randBytes_Inr:
  "randBytes n tape = Inr (b, rest) \<Longrightarrow> length b = n \<and> rest = drop n tape \<and> n \<le> length tape"
  by (auto simp: randBytes_def readFull_def split: if_splits)

lemma randBytes_enough: "n \<le> length tape \<Longrightarrow> randBytes n tape = Inr (take n tape, drop n tape)"
  by (simp add: randBytes_def readFull_def)

lemma seal_message_length:
  assumes "seal_message P to messageBytes rand0 = Inr (sealed, rand1)"
    and "length messageBytes \<le> MaxSerializedMessage P"
  shows "length sealed = sealed_length P to"
proof -
  from assms(1) obtain pad r1 where
    p: "randBytes (MaxSerializedMessage P + 4 - (4 + length messageBytes)) rand0 = Inr (pad, r1)"
    by (cases "randBytes (MaxSerializedMessage P + 4 - (4 + length messageBytes)) rand0")
       (auto simp: seal_message_def)
  from assms(1) p obtain innerNonce r2 where n: "randBytes 24 r1 = Inr (innerNonce, r2)"
    by (cases "randBytes 24 r1") (auto simp: seal_message_def)
  let ?plaintext = "put_uint32 (length messageBytes) @ messageBytes @ pad"
  have lp: "length ?plaintext = MaxSerializedMessage P + 4"
    using randBytes_Inr [OF p] assms(2) by (simp add: put_uint32_def)
  show ?thesis
  proof (cases "ct_supportedVersion to \<ge> 1")
    case False
    with assms(1) p n lp show ?thesis
      by (auto simp: seal_message_def Let_def sealed_length_def nonceLen_def box_Overhead_def)
  next
    case True
    with assms(1) p n obtain pub priv r3 where g: "box_GenerateKey P r2 = Inr (pub, priv, r3)"
      by (cases "box_GenerateKey P r2") (auto simp: seal_message_def Let_def)
    with assms(1) p n True obtain outerNonce r4 where o: "randBytes 24 r3 = Inr (outerNonce, r4)"
      by (cases "randBytes 24 r3") (auto simp: seal_message_def Let_def)
    with assms(1) p n True g lp show ?thesis
      by (auto simp: seal_message_def Let_def sealed_length_def nonceLen_def box_Overhead_def
          ephemeralBlockLen_def)
  qed
qed

lemma send_Inr:
  assumes "send P c to message = Inr c'"
  shows "\<exists>messageBytes sealed rand1 groupSig rand2.
           marshal_Message P message = Inr messageBytes \<and>
           length messageBytes \<le> MaxSerializedMessage P \<and>
           seal_message P to messageBytes (cl_rand c) = Inr (sealed, rand1) \<and>
           member_Sign P (ct_myGroupKey to) rand1 (sha256 P sealed) = Inr (groupSig, rand2) \<and>
           enqueued_request c' =
             Some (Deliver \<lparr>dl_To = ct_theirIdentityPublic to, dl_Signature = groupSig,
                            dl_Generation = ct_generation to, dl_Message = sealed\<rparr>)"
  using assms
  by (auto simp: send_def Let_def enqueue_def emit_def enqueued_request_def
      split: sum.splits if_splits prod.splits)

lemma seal_message_succeeds:
  assumes "length messageBytes \<le> MaxSerializedMessage P"
    and "MaxSerializedMessage P - length messageBytes + 80 \<le> length rand0"
    and "\<forall>tape. 32 \<le> length tape \<longrightarrow> (\<exists>public private. box_GenerateKey P tape = Inr (public, private, drop 32 tape))"
  shows "\<exists>sealed rand1. seal_message P to messageBytes rand0 = Inr (sealed, rand1)"
proof -
  let ?n = "MaxSerializedMessage P + 4 - (4 + length messageBytes)"
  have p: "randBytes ?n rand0 = Inr (take ?n rand0, drop ?n rand0)"
    using assms(1,2) by (simp add: randBytes_enough)
  have n: "randBytes 24 (drop ?n rand0) = Inr (take 24 (drop ?n rand0), drop 24 (drop ?n rand0))"
    using assms(1,2) by (simp add: randBytes_enough)
  show ?thesis
  proof (cases "ct_supportedVersion to \<ge> 1")
    case False
    with p n show ?thesis by (simp add: seal_message_def Let_def)
  next
    case True
    have "32 \<le> length (drop 24 (drop ?n rand0))" using assms(1,2) by simp
    with assms(3) obtain pub priv where
      g: "box_GenerateKey P (drop 24 (drop ?n rand0)) = Inr (pub, priv, drop 32 (drop 24 (drop ?n rand0)))"
      by blast
    have o: "randBytes 24 (drop 32 (drop 24 (drop ?n rand0))) =
       Inr (take 24 (drop 32 (drop 24 (drop ?n rand0))), drop 24 (drop 32 (drop 24 (drop ?n rand0))))"
      using assms(1,2) by (simp add: randBytes_enough)
    from True p n g o show ?thesis by (simp add: seal_message_def Let_def)
  qed
qed

lemma send_succeeds:
  assumes "marshal_Message P message = Inr messageBytes"
    and "length messageBytes \<le> MaxSerializedMessage P"
    and "MaxSerializedMessage P - length messageBytes + 80 \<le> length (cl_rand c)"
    and "\<forall>tape. 32 \<le> length tape \<longrightarrow> (\<exists>public private. box_GenerateKey P tape = Inr (public, private, drop 32 tape))"
    and "\<forall>tape digest. \<exists>groupSig rest. member_Sign P (ct_myGroupKey to) tape digest = Inr (groupSig, rest)"
  shows "\<exists>c'. send P c to message = Inr c'"
proof -
  from seal_message_succeeds [OF assms(2,3,4)] obtain sealed rand1 where
    s: "seal_message P to messageBytes (cl_rand c) = Inr (sealed, rand1)" by blast
  from assms(5) obtain groupSig rand2 where
    g: "member_Sign P (ct_myGroupKey to) rand1 (sha256 P sealed) = Inr (groupSig, rand2)" by blast
  from assms(1,2) s g show ?thesis by (simp add: send_def Let_def)
qed

text \<open>
  C3. Whenever \<open>send\<close> accepts a message, the request it enqueues is a delivery whose
  sealed message is 24 + 32 + 16 + 24 + 4 + \<open>MaxSerializedMessage\<close> + 16 bytes long
  when the contact's supported version is at least 1, and 24 + 4 +
  \<open>MaxSerializedMessage\<close> + 16 bytes long otherwise (version 0 included): the length
  depends on nothing else, not on the message and not on what the box primitive returns.
\<close>

theorem sealed_length_is_fixed:
  "send P c to message = Inr c' \<longrightarrow>
     (\<exists>d. enqueued_request c' = Some (Deliver d) \<and>
          length (dl_Message d) =
            (if ct_supportedVersion to \<ge> 1
             then 24 + 32 + 16 + 24 + 4 + MaxSerializedMessage P + 16
             else 24 + 4 + MaxSerializedMessage P + 16))"
proof
  assume "send P c to message = Inr c'"
  from send_Inr [OF this] obtain messageBytes sealed rand1 groupSig where
    l: "length messageBytes \<le> MaxSerializedMessage P"
    and s: "seal_message P to messageBytes (cl_rand c) = Inr (sealed, rand1)"
    and e: "enqueued_request c' =
             Some (Deliver \<lparr>dl_To = ct_theirIdentityPublic to, dl_Signature = groupSig,
                            dl_Generation = ct_generation to, dl_Message = sealed\<rparr>)"
    by blast
  from seal_message_length [OF s l] e
  show "\<exists>d. enqueued_request c' = Some (Deliver d) \<and>
          length (dl_Message d) =
            (if ct_supportedVersion to \<ge> 1
             then 24 + 32 + 16 + 24 + 4 + MaxSerializedMessage P + 16
             else 24 + 4 + MaxSerializedMessage P + 16)"
    by (simp add: sealed_length_def)
qed

text \<open>Messages to send, and a client whose random source has enough bytes for them.\<close>

definition long_tape_client :: client where
  "long_tape_client = toy_client\<lparr>cl_rand := replicate 20000 8\<rparr>"

definition hello :: Message where
  "hello = \<lparr>m_Id = 77, m_Time = 0, m_Body = [104, 105], m_MyNextDh = dh 2,
             m_InReplyTo = None, m_SupportedVersion = None\<rparr>"

definition full_body :: Message where
  "full_body = \<lparr>m_Id = 78, m_Time = 0, m_Body = replicate 16384 0, m_MyNextDh = dh 2,
                 m_InReplyTo = None, m_SupportedVersion = None\<rparr>"

lemma toy_marshal_hello:
  "marshal_Message toy_prims hello = Inr ([2, 0, 0, 0, 104, 105] @ dh 2)"
  by (simp add: toy_prims_def hello_def put_uint32_def)

lemma toy_marshal_full_body:
  "marshal_Message toy_prims full_body = Inr (put_uint32 16384 @ replicate 16384 0 @ dh 2)"
  by (simp add: toy_prims_def full_body_def)

lemma toy_GenerateKey:
  "\<forall>tape. 32 \<le> length tape \<longrightarrow>
     (\<exists>pub priv. box_GenerateKey toy_prims tape = Inr (pub, priv, drop 32 tape))"
  by (simp add: toy_prims_def readFull_def)

lemma toy_Sign:
  "\<forall>tape digest. \<exists>groupSig rest. member_Sign toy_prims k tape digest = Inr (groupSig, rest)"
  by (simp add: toy_prims_def)

lemma toy_send_hello: "\<exists>c'. send toy_prims long_tape_client to hello = Inr c'"
proof (rule send_succeeds [OF toy_marshal_hello _ _ toy_GenerateKey toy_Sign])
  show "length ([2, 0, 0, 0, 104, 105] @ dh 2) \<le> MaxSerializedMessage toy_prims"
    by (simp add: put_uint32_def dh_def toy_prims_def)
  show "MaxSerializedMessage toy_prims - length ([2, 0, 0, 0, 104, 105] @ dh 2) + 80
          \<le> length (cl_rand long_tape_client)"
    by (simp add: put_uint32_def dh_def toy_prims_def long_tape_client_def)
qed

theorem sealed_length_is_fixed_witness:
  "(\<exists>c' d. send toy_prims long_tape_client alice hello = Inr c' \<and>
           enqueued_request c' = Some (Deliver d) \<and> length (dl_Message d) = 16500)
   \<and> (\<exists>c' d. send toy_prims long_tape_client (alice\<lparr>ct_supportedVersion := 0\<rparr>) hello = Inr c' \<and>
           enqueued_request c' = Some (Deliver d) \<and> length (dl_Message d) = 16428)"
proof -
  have m: "MaxSerializedMessage toy_prims = 16384" by (simp add: toy_prims_def)
  have v: "ct_supportedVersion alice = 1" by (simp add: alice_def)
  from toy_send_hello obtain c1 where s1: "send toy_prims long_tape_client alice hello = Inr c1"
    by blast
  from toy_send_hello obtain c0 where
    s0: "send toy_prims long_tape_client (alice\<lparr>ct_supportedVersion := 0\<rparr>) hello = Inr c0"
    by blast
  show ?thesis
    using sealed_length_is_fixed [of toy_prims long_tape_client alice hello c1]
      sealed_length_is_fixed [of toy_prims long_tape_client "alice\<lparr>ct_supportedVersion := 0\<rparr>" hello c0]
    by (simp add: s1 s0 m v)
qed

section \<open>The size limit of a message\<close>

text \<open>
  C8, as the code has it. The limit of \<open>send\<close> is on the serialised message, of
  which the body is one part: \<open>send\<close> fails with "message too large" whenever the
  serialisation is longer than \<open>MaxSerializedMessage\<close> bytes; and when it is not longer,
  \<open>send\<close> succeeds, provided the random source has the bytes for the padding, the two
  nonces and the ephemeral key, and key generation and group signing do not fail.
\<close>

theorem send_limit_is_on_serialised_length:
  "(marshal_Message P message = Inr messageBytes \<and> length messageBytes > MaxSerializedMessage P \<longrightarrow>
      send P c to message = Inl (Err ''message too large''))
   \<and> (marshal_Message P message = Inr messageBytes \<and> length messageBytes \<le> MaxSerializedMessage P \<and>
        MaxSerializedMessage P - length messageBytes + 80 \<le> length (cl_rand c) \<and>
        (\<forall>tape. 32 \<le> length tape \<longrightarrow>
           (\<exists>public private. box_GenerateKey P tape = Inr (public, private, drop 32 tape))) \<and>
        (\<forall>tape digest. \<exists>groupSig rest.
           member_Sign P (ct_myGroupKey to) tape digest = Inr (groupSig, rest)) \<longrightarrow>
      (\<exists>c'. send P c to message = Inr c'))"
proof (intro conjI impI)
  assume "marshal_Message P message = Inr messageBytes \<and> length messageBytes > MaxSerializedMessage P"
  then show "send P c to message = Inl (Err ''message too large'')"
    by (simp add: send_def)
next
  assume "marshal_Message P message = Inr messageBytes \<and> length messageBytes \<le> MaxSerializedMessage P \<and>
        MaxSerializedMessage P - length messageBytes + 80 \<le> length (cl_rand c) \<and>
        (\<forall>tape. 32 \<le> length tape \<longrightarrow>
           (\<exists>public private. box_GenerateKey P tape = Inr (public, private, drop 32 tape))) \<and>
        (\<forall>tape digest. \<exists>groupSig rest.
           member_Sign P (ct_myGroupKey to) tape digest = Inr (groupSig, rest))"
  then show "\<exists>c'. send P c to message = Inr c'"
    using send_succeeds [of P message messageBytes c to] by blast
qed

theorem send_limit_is_on_serialised_length_witness:
  "marshal_Message toy_prims full_body = Inr (put_uint32 16384 @ replicate 16384 0 @ dh 2) \<and>
   length (put_uint32 16384 @ replicate 16384 0 @ dh 2) > MaxSerializedMessage toy_prims \<and>
   send toy_prims long_tape_client alice full_body = Inl (Err ''message too large'') \<and>
   marshal_Message toy_prims hello = Inr ([2, 0, 0, 0, 104, 105] @ dh 2) \<and>
   length ([2, 0, 0, 0, 104, 105] @ dh 2) \<le> MaxSerializedMessage toy_prims \<and>
   MaxSerializedMessage toy_prims - length ([2, 0, 0, 0, 104, 105] @ dh 2) + 80
     \<le> length (cl_rand long_tape_client) \<and>
   (\<exists>c'. send toy_prims long_tape_client alice hello = Inr c')"
proof -
  have l: "length (put_uint32 16384 @ replicate 16384 0 @ dh 2) > MaxSerializedMessage toy_prims"
    "length ([2, 0, 0, 0, 104, 105] @ dh 2) \<le> MaxSerializedMessage toy_prims"
    "MaxSerializedMessage toy_prims - length ([2, 0, 0, 0, 104, 105] @ dh 2) + 80
       \<le> length (cl_rand long_tape_client)"
    by (simp_all add: put_uint32_def dh_def toy_prims_def long_tape_client_def)
  show ?thesis
    using send_limit_is_on_serialised_length [of toy_prims full_body
        "put_uint32 16384 @ replicate 16384 0 @ dh 2" long_tape_client alice]
      send_limit_is_on_serialised_length [of toy_prims hello
        "[2, 0, 0, 0, 104, 105] @ dh 2" long_tape_client alice]
      toy_GenerateKey toy_Sign [of "ct_myGroupKey alice"] l toy_marshal_hello toy_marshal_full_body
    by blast
qed

text \<open>
  C8 as stated fails: a message whose body is exactly \<open>MaxSerializedMessage\<close> bytes
  long is refused as too large, since its serialisation holds more than the body.
\<close>

theorem body_of_maximal_length_is_too_large:
  "length (m_Body full_body) = MaxSerializedMessage toy_prims \<and>
   send toy_prims long_tape_client alice full_body = Inl (Err ''message too large'')"
proof -
  have "length (put_uint32 16384 @ replicate 16384 0 @ dh 2) > MaxSerializedMessage toy_prims"
    by (simp add: put_uint32_def dh_def toy_prims_def)
  then have "send toy_prims long_tape_client alice full_body = Inl (Err ''message too large'')"
    by (simp add: send_def toy_marshal_full_body)
  moreover have "length (m_Body full_body) = MaxSerializedMessage toy_prims"
    by (simp add: full_body_def toy_prims_def)
  ultimately show ?thesis by simp
qed

section \<open>The generation of a revocation\<close>

text \<open>The signed revocation of the request at the tail of the queue.\<close>

definition enqueued_revocation :: "client \<Rightarrow> SignedRevocation option" where
  "enqueued_revocation c =
     (case enqueued_request c of Some (RevocationReq signedRev) \<Rightarrow> Some signedRev | _ \<Rightarrow> None)"

text \<open>
  C1, as the code has it. When \<open>revoke\<close> returns, the signed revocation it has
  enqueued carries the generation the client had before the call, while the client's own
  generation is one more; what is signed with the identity key is the prefix
  \<open>"revocation\\0"\<close> followed by the serialisation of that revocation record
  (revocation and old generation). \<open>revoke\<close> returns whenever the record can be
  serialised and an id can be drawn.
\<close>

theorem revocation_carries_generation_before_increment:
  "(revoke P now created c to = Inr c' \<longrightarrow>
      (\<exists>revBytes.
         marshal_Revocation P
           \<lparr>rr_Revocation = revocation_Marshal P (priv_GenerateRevocation P (cl_groupPriv c) (ct_groupKey to)),
            rr_Generation = cl_generation c\<rparr> = Inr revBytes \<and>
         enqueued_revocation c' =
           Some \<lparr>sr_Revocation =
                   \<lparr>rr_Revocation = revocation_Marshal P
                       (priv_GenerateRevocation P (cl_groupPriv c) (ct_groupKey to)),
                    rr_Generation = cl_generation c\<rparr>,
                 sr_Signature = ed25519_Sign P (cl_priv c) (revocationSignaturePrefix @ revBytes)\<rparr> \<and>
         cl_generation c' = cl_generation c + 1))
   \<and> (marshal_Revocation P
           \<lparr>rr_Revocation = revocation_Marshal P (priv_GenerateRevocation P (cl_groupPriv c) (ct_groupKey to)),
            rr_Generation = cl_generation c\<rparr> = Inr revBytes' \<and>
        randId P (cl_rand c) = Inr (newId, rand') \<longrightarrow>
      (\<exists>c'. revoke P now created c to = Inr c'))"
  by (auto simp: revoke_def Let_def enqueue_def emit_def enqueued_revocation_def enqueued_request_def
      split: sum.splits prod.splits)

lemma toy_revoke_marshal:
  "marshal_Revocation toy_prims
     \<lparr>rr_Revocation = revocation_Marshal toy_prims
        (priv_GenerateRevocation toy_prims (cl_groupPriv two_contacts) (ct_groupKey alice)),
      rr_Generation = cl_generation two_contacts\<rparr> = Inr [5, 0, 0, 0, 10]"
  by (simp add: toy_prims_def two_contacts_def toy_client_def alice_def put_uint32_def)

theorem revocation_carries_generation_before_increment_witness:
  "marshal_Revocation toy_prims
     \<lparr>rr_Revocation = revocation_Marshal toy_prims
        (priv_GenerateRevocation toy_prims (cl_groupPriv two_contacts) (ct_groupKey alice)),
      rr_Generation = cl_generation two_contacts\<rparr> = Inr [5, 0, 0, 0, 10] \<and>
   randId toy_prims (cl_rand two_contacts) = Inr (8, replicate 63 8) \<and>
   (\<exists>c'. revoke toy_prims 0 0 two_contacts alice = Inr c' \<and>
         enqueued_revocation c' =
           Some \<lparr>sr_Revocation = \<lparr>rr_Revocation = [10], rr_Generation = 5\<rparr>,
                 sr_Signature = ed25519_Sign toy_prims (cl_priv two_contacts)
                                  (revocationSignaturePrefix @ [5, 0, 0, 0, 10])\<rparr> \<and>
         cl_generation c' = 6)"
proof -
  have r: "randId toy_prims (cl_rand two_contacts) = Inr (8, replicate 63 8)"
    by (simp add: two_contacts_def toy_client_def toy_prims_def)
  have g: "cl_generation two_contacts = 5"
    "revocation_Marshal toy_prims
        (priv_GenerateRevocation toy_prims (cl_groupPriv two_contacts) (ct_groupKey alice)) = [10]"
    by (simp_all add: two_contacts_def toy_client_def toy_prims_def alice_def)
  from revocation_carries_generation_before_increment
         [of toy_prims 0 0 two_contacts alice _ "[5, 0, 0, 0, 10]" 8 "replicate 63 8"]
       toy_revoke_marshal r
  obtain c' where c: "revoke toy_prims 0 0 two_contacts alice = Inr c'" by blast
  show ?thesis
    using revocation_carries_generation_before_increment
         [of toy_prims 0 0 two_contacts alice c' "[5, 0, 0, 0, 10]" 8 "replicate 63 8"]
       toy_revoke_marshal r c g
    by auto
qed

text \<open>
  C1 as stated fails: a client of generation 5 revokes a contact; the revocation it
  enqueues carries generation 5, and the new generation is 6.
\<close>

theorem revocation_does_not_carry_new_generation:
  "(case revoke toy_prims 0 0 two_contacts alice of
      Inl e \<Rightarrow> None
    | Inr c' \<Rightarrow> map_option (\<lambda>signedRev. (rr_Generation (sr_Revocation signedRev), cl_generation c'))
                  (enqueued_revocation c'))
   = Some (5, 6)"
proof -
  have r: "randId toy_prims (cl_rand two_contacts) = Inr (8, replicate 63 8)"
    by (simp add: two_contacts_def toy_client_def toy_prims_def)
  have g: "cl_generation two_contacts = 5"
    by (simp add: two_contacts_def toy_client_def)
  have m: "marshal_Revocation toy_prims
     \<lparr>rr_Revocation = revocation_Marshal toy_prims
        (priv_GenerateRevocation toy_prims (cl_groupPriv two_contacts) (ct_groupKey alice)),
      rr_Generation = 5\<rparr> = Inr [5, 0, 0, 0, 10]"
    using toy_revoke_marshal by (simp add: g)
  show ?thesis
    by (simp add: revoke_def Let_def m r g enqueue_def emit_def enqueued_revocation_def
        enqueued_request_def)
qed

section \<open>The length of a revocation's signature\<close>

text \<open>A client with one message to alice in its outbox and in its queue.\<close>

definition queued_hello :: queuedMessage where
  "queued_hello =
     \<lparr>qm_request = Deliver \<lparr>dl_To = dh 31, dl_Signature = [2, 20, 40], dl_Generation = 5,
                             dl_Message = replicate 40 0\<rparr>,
      qm_id = 3, qm_to = 7, qm_server = ''pondserver://alice'', qm_created = 0,
      qm_sent = None, qm_acked = None, qm_revocation = False, qm_message = Some hello\<rparr>"

definition sent_client :: client where
  "sent_client = two_contacts\<lparr>cl_outbox := [queued_hello], cl_queue := [queued_hello]\<rparr>"

text \<open>
  A revocation of generation 5 from alice, and its signature: the 64 bytes that verify
  under her key.
\<close>

definition alice_revocation :: SignedRevocation_Revocation where
  "alice_revocation = \<lparr>rr_Revocation = [99], rr_Generation = 5\<rparr>"

definition alice_signature :: bytes where
  "alice_signature = copy_array 64 (dh 30 @ revocationSignaturePrefix @ [5, 0, 0, 0, 99])"

lemma length_copy_array [simp]: "length (copy_array n src) = n"
  by (simp add: copy_array_def)

lemma copy_array_prefix: "length a = n \<Longrightarrow> copy_array n (a @ b) = a"
  by (simp add: copy_array_def)

lemma copy_array_take: "n \<le> length src \<Longrightarrow> copy_array n (take n src) = copy_array n src"
  by (simp add: copy_array_def)

lemma processMessageSent_long_signature:
  assumes "ed25519_SignatureSize \<le> length (sr_Signature revocation)"
  shows "processMessageSent P now c \<lparr>msr_id = i, msr_revocation = Some revocation\<rparr> =
         processMessageSent P now c
           \<lparr>msr_id = i,
            msr_revocation = Some (revocation\<lparr>sr_Signature :=
                                     take ed25519_SignatureSize (sr_Signature revocation)\<rparr>)\<rparr>"
  using assms
  by (simp add: processMessageSent_def Let_def copy_count_def copy_array_take
      cong: option.case_cong sum.case_cong if_cong)

lemma processMessageSent_short_signature:
  assumes "find (\<lambda>m. qm_id m = i) (cl_outbox c) = Some msg"
    and "find (\<lambda>x. ct_id x = qm_to msg) (cl_contacts c) = Some to"
    and "rr_Generation (sr_Revocation revocation) = ct_generation to"
    and "marshal_Revocation P (sr_Revocation revocation) = Inr revBytes"
    and "length (sr_Signature revocation) < ed25519_SignatureSize"
  shows "processMessageSent P now c \<lparr>msr_id = i, msr_revocation = Some revocation\<rparr> =
         Inr (emit (Printf ''Bad signature length on revocation (%d bytes) from %s'') c)"
  using assms by (simp add: processMessageSent_def Let_def copy_count_def)

lemma sent_client_lookup:
  "find (\<lambda>m. qm_id m = 3) (cl_outbox sent_client) = Some queued_hello"
  "find (\<lambda>x. ct_id x = 7) (cl_contacts sent_client) = Some alice"
  by (simp_all add: sent_client_def two_contacts_def queued_hello_def alice_def)

lemma alice_revocation_checks:
  "rr_Generation alice_revocation = ct_generation alice"
  "marshal_Revocation toy_prims alice_revocation = Inr [5, 0, 0, 0, 99]"
  "ed25519_Verify toy_prims (ct_theirPub alice) (revocationSignaturePrefix @ [5, 0, 0, 0, 99]) alice_signature"
  "revocation_Unmarshal toy_prims (rr_Revocation alice_revocation) = Some [99]"
  "member_Update toy_prims (ct_myGroupKey alice) [99] = (True, \<lparr>mk_Group = [2, 99], mk_material = [20]\<rparr>)"
  "group_Update toy_prims [2, 99] [99] = [2, 99, 99]"
  by (simp_all add: alice_revocation_def alice_def toy_prims_def put_uint32_def alice_signature_def)

text \<open>
  C4. \<open>processMessageSent\<close> checks the length of a revocation's signature by the
  number of bytes that \<open>copy\<close> moves into an array of 64. A signature of fewer than
  64 bytes is rejected: the log line about the bad length, and no other change. A
  signature of more than 64 bytes is not: the handler does with it what it does with its
  first 64 bytes.
\<close>

theorem revocation_signature_length_check:
  "(find (\<lambda>m. qm_id m = i) (cl_outbox c) = Some msg \<and>
    find (\<lambda>x. ct_id x = qm_to msg) (cl_contacts c) = Some to \<and>
    rr_Generation (sr_Revocation revocation) = ct_generation to \<and>
    marshal_Revocation P (sr_Revocation revocation) = Inr revBytes \<and>
    length (sr_Signature revocation) < 64 \<longrightarrow>
      processMessageSent P now c \<lparr>msr_id = i, msr_revocation = Some revocation\<rparr> =
        Inr (emit (Printf ''Bad signature length on revocation (%d bytes) from %s'') c))
   \<and> (64 \<le> length (sr_Signature revocation) \<longrightarrow>
        processMessageSent P now c \<lparr>msr_id = i, msr_revocation = Some revocation\<rparr> =
        processMessageSent P now c
          \<lparr>msr_id = i,
           msr_revocation = Some (revocation\<lparr>sr_Signature := take 64 (sr_Signature revocation)\<rparr>)\<rparr>)"
  using processMessageSent_short_signature [of i c msg to revocation P revBytes now]
    processMessageSent_long_signature [of revocation P now c i]
  by (simp add: ed25519_SignatureSize_def)

text \<open>
  Here the signature has 65 bytes, the 64 that verify followed by a zero: the revocation
  is processed, and the contact's generation goes from 5 to 6.
\<close>

theorem revocation_signature_length_check_witness:
  "length (alice_signature @ [0]) = 65 \<and>
   processMessageSent toy_prims 0 sent_client
     \<lparr>msr_id = 3,
      msr_revocation = Some \<lparr>sr_Revocation = alice_revocation, sr_Signature = alice_signature @ [0]\<rparr>\<rparr> =
   Inr (emit UIStateRevocationProcessed
         (emit (RevocationUpdateSent 7 \<lparr>mk_Group = [2, 99, 99], mk_material = [20]\<rparr> 6)
           (store_contact
              (alice\<lparr>ct_generation := 6,
                     ct_myGroupKey := \<lparr>mk_Group = [2, 99, 99], mk_material = [20]\<rparr>\<rparr>)
              sent_client))) \<and>
   map ct_generation (cl_contacts sent_client) = [5, 0] \<and>
   map ct_generation
     (cl_contacts
        (store_contact
           (alice\<lparr>ct_generation := 6,
                  ct_myGroupKey := \<lparr>mk_Group = [2, 99, 99], mk_material = [20]\<rparr>\<rparr>)
           sent_client)) = [6, 0]"
proof -
  have l: "length alice_signature = 64" by (simp add: alice_signature_def)
  have m: "map ct_generation (cl_contacts sent_client) = [5, 0]"
    "map ct_generation
     (cl_contacts
        (store_contact
           (alice\<lparr>ct_generation := 6,
                  ct_myGroupKey := \<lparr>mk_Group = [2, 99, 99], mk_material = [20]\<rparr>\<rparr>)
           sent_client)) = [6, 0]"
    by (simp_all add: sent_client_def two_contacts_def store_contact_def alice_def bob_def)
  have g: "ct_generation alice = 5" "qm_to queued_hello = 7" "ct_myGroupKey alice = \<lparr>mk_Group = [2], mk_material = [20]\<rparr>"
    by (simp_all add: alice_def queued_hello_def)
  have "processMessageSent toy_prims 0 sent_client
     \<lparr>msr_id = 3,
      msr_revocation = Some \<lparr>sr_Revocation = alice_revocation, sr_Signature = alice_signature @ [0]\<rparr>\<rparr> =
    processMessageSent toy_prims 0 sent_client
     \<lparr>msr_id = 3,
      msr_revocation = Some \<lparr>sr_Revocation = alice_revocation, sr_Signature = alice_signature\<rparr>\<rparr>"
    using revocation_signature_length_check
            [of 3 sent_client queued_hello alice
                "\<lparr>sr_Revocation = alice_revocation, sr_Signature = alice_signature @ [0]\<rparr>"
                toy_prims "[5, 0, 0, 0, 99]" 0]
    by (simp add: l)
  also have "\<dots> = Inr (emit UIStateRevocationProcessed
         (emit (RevocationUpdateSent 7 \<lparr>mk_Group = [2, 99, 99], mk_material = [20]\<rparr> 6)
           (store_contact
              (alice\<lparr>ct_generation := 6,
                     ct_myGroupKey := \<lparr>mk_Group = [2, 99, 99], mk_material = [20]\<rparr>\<rparr>)
              sent_client)))"
    using alice_revocation_checks
    by (simp add: processMessageSent_def sent_client_lookup Let_def copy_count_def l
        ed25519_SignatureSize_def copy_array_prefix [where b = "[]", simplified] g)
  finally show ?thesis using m by (simp add: l)
qed

section \<open>The reply to a send\<close>

text \<open>A client with two messages in its queue.\<close>

definition queued_second :: queuedMessage where
  "queued_second = queued_hello\<lparr>qm_id := 4\<rparr>"

definition sending_client :: client where
  "sending_client = two_contacts\<lparr>cl_queue := [queued_hello, queued_second]\<rparr>"

text \<open>Two replies to a send: one without a status, one whose status field holds OK.\<close>

definition reply_without_status :: Reply where
  "reply_without_status =
     \<lparr>rp_Status = None, rp_Fetched = None, rp_Announce = None, rp_Upload = None,
      rp_Download = None, rp_Revocation = None\<rparr>"

definition reply_with_status_OK :: Reply where
  "reply_with_status_OK = reply_without_status\<lparr>rp_Status := Some Reply_OK\<rparr>"

lemma transact_round_without_status:
  assumes "cl_queue c = h # rest" and "rp_Status reply = None"
  shows "transact_round c (Replied reply) =
         Inr (c\<lparr>cl_queue := rest,
                cl_events := cl_events c @
                  [Printf ''Starting message transmission to %s'', MessageSentPosted (qm_id h) None]\<rparr>)"
  using assms by (simp add: transact_round_def Let_def emit_def replyToError_def)

lemma transact_round_with_status_OK:
  assumes "cl_queue c = h # rest" and "rp_Status reply = Some Reply_OK"
  shows "transact_round c (Replied reply) =
         Inr (c\<lparr>cl_queue := rest @ [h],
                cl_events := cl_events c @ [Printf ''Starting message transmission to %s'']\<rparr>)"
  using assms by (simp add: transact_round_def Let_def emit_def replyToError_def)

text \<open>
  C6. After a send, a reply without a status takes the sent message off the tail of the
  queue, where the rotation has put it, and posts the message-sent event with its id. A
  reply whose status field is there and holds OK, which \<open>replyToError\<close> takes for
  success as well, does neither: the message stays at the tail of the queue and nothing
  is posted.
\<close>

theorem reply_to_a_send:
  "(cl_queue c = h # rest \<and> rp_Status reply = None \<longrightarrow>
      replyToError reply = None \<and>
      transact_round c (Replied reply) =
        Inr (c\<lparr>cl_queue := rest,
               cl_events := cl_events c @
                 [Printf ''Starting message transmission to %s'', MessageSentPosted (qm_id h) None]\<rparr>))
   \<and> (cl_queue c = h # rest \<and> rp_Status reply = Some Reply_OK \<longrightarrow>
        replyToError reply = None \<and>
        transact_round c (Replied reply) =
          Inr (c\<lparr>cl_queue := rest @ [h],
                 cl_events := cl_events c @ [Printf ''Starting message transmission to %s'']\<rparr>))"
  using transact_round_without_status [of c h rest reply]
    transact_round_with_status_OK [of c h rest reply]
  by (simp add: replyToError_def)

theorem reply_to_a_send_witness:
  "replyToError reply_without_status = None \<and>
   transact_round sending_client (Replied reply_without_status) =
     Inr (sending_client\<lparr>cl_queue := [queued_second],
            cl_events := [Printf ''Starting message transmission to %s'', MessageSentPosted 3 None]\<rparr>) \<and>
   replyToError reply_with_status_OK = None \<and>
   transact_round sending_client (Replied reply_with_status_OK) =
     Inr (sending_client\<lparr>cl_queue := [queued_second, queued_hello],
            cl_events := [Printf ''Starting message transmission to %s'']\<rparr>)"
proof -
  have q: "cl_queue sending_client = queued_hello # [queued_second]" "cl_events sending_client = []"
    "qm_id queued_hello = 3"
    by (simp_all add: sending_client_def two_contacts_def toy_client_def queued_hello_def)
  have s: "rp_Status reply_without_status = None" "rp_Status reply_with_status_OK = Some Reply_OK"
    by (simp_all add: reply_without_status_def reply_with_status_OK_def)
  show ?thesis
    using reply_to_a_send [of sending_client queued_hello "[queued_second]" reply_without_status]
      reply_to_a_send [of sending_client queued_hello "[queued_second]" reply_with_status_OK]
    by (simp add: q s)
qed

section \<open>Resuming a transfer\<close>

text \<open>The error of the guard \<open>transferred > total\<close>.\<close>

definition guard_error :: transfer_error where
  "guard_error = ErrorText ''transferred more than the expected amount''"

text \<open>
  The reads of the steps give the \<open>n\<close> bytes that are left of the file, and then its
  end (what comes after a cancel signal or a failed read is not looked at).
\<close>

fun file_delivers :: "nat \<Rightarrow> io_step list \<Rightarrow> bool" where
  "file_delivers n [] = True"
| "file_delivers n (Killed # steps) = True"
| "file_delivers n (ReadError # steps) = True"
| "file_delivers n (Eof # steps) = (n = 0)"
| "file_delivers n (Chunk k written # steps) = (k \<le> n \<and> file_delivers (n - k) steps)"

lemma copy_loop_mono:
  "copy_loop isUpload total' transferred closed steps = Some (how, transferred', closed') \<Longrightarrow>
   transferred \<le> transferred'"
proof (induction isUpload total' transferred closed steps rule: copy_loop.induct)
  case (5 isUpload total' transferred closed n written steps)
  then show ?case
    by (cases written; cases isUpload; cases closed; cases "transferred + int n > total'")
       (auto simp: Let_def split: if_splits)
qed (auto split: if_splits)

lemma copy_loop_guard:
  "ns \<noteq> [] \<Longrightarrow> transferred + int (sum_list ns) > total' \<Longrightarrow>
   \<exists>transferred'. copy_loop isUpload total' transferred False (map (\<lambda>n. Chunk n True) ns @ later) =
        Some (Aborted ''transferred more than the expected amount'', transferred', True) \<and>
      total' < transferred' \<and> transferred' \<le> transferred + int (sum_list ns)"
proof (induction ns arbitrary: transferred)
  case Nil
  then show ?case by simp
next
  case (Cons n ns)
  show ?case
  proof (cases "transferred + int n > total'")
    case True
    then show ?thesis by (simp add: Let_def)
  next
    case False
    with Cons.prems have "ns \<noteq> []" by auto
    moreover from Cons.prems have "(transferred + int n) + int (sum_list ns) > total'" by simp
    ultimately obtain t' where
      "copy_loop isUpload total' (transferred + int n) False (map (\<lambda>n. Chunk n True) ns @ later) =
        Some (Aborted ''transferred more than the expected amount'', t', True)"
      "total' < t'" "t' \<le> (transferred + int n) + int (sum_list ns)"
      using Cons.IH [of "transferred + int n"] by blast
    with False show ?thesis by (simp add: Let_def)
  qed
qed

lemma upload_ends_closed:
  "file_delivers n steps \<Longrightarrow> closed \<or> (total' < transferred + int n \<and> 0 < n) \<Longrightarrow>
   copy_loop True total' transferred closed steps = Some (EndOfInput, counted, closed') \<Longrightarrow> closed'"
proof (induction steps arbitrary: n transferred closed)
  case Nil
  then show ?case by simp
next
  case (Cons step steps)
  show ?case
  proof (cases step)
    case Killed
    with Cons.prems show ?thesis by simp
  next
    case Eof
    with Cons.prems show ?thesis by auto
  next
    case ReadError
    with Cons.prems show ?thesis by simp
  next
    case (Chunk k written)
    with Cons.prems have d: "k \<le> n" "file_delivers (n - k) steps" by simp_all
    show ?thesis
    proof (cases "\<not> written \<or> closed")
      case True
      with Cons.prems(3) Chunk
      have "copy_loop True total' transferred True steps = Some (EndOfInput, counted, closed')"
        by auto
      with Cons.IH [OF d(2), of True transferred] show ?thesis by simp
    next
      case False
      with Cons.prems(2) have i: "total' < transferred + int n" "0 < n" by simp_all
      show ?thesis
      proof (cases "transferred + int k > total'")
        case True
        with False Cons.prems(3) Chunk show ?thesis by (simp add: Let_def)
      next
        case le: False
        with False Cons.prems(3) Chunk
        have c: "copy_loop True total' (transferred + int k) False steps =
                 Some (EndOfInput, counted, closed')"
          by (simp add: Let_def)
        from le i d(1) have "total' < (transferred + int k) + int (n - k)" "0 < n - k"
          by simp_all
        with Cons.IH [OF d(2), of False "transferred + int k"] c show ?thesis by simp
      qed
    qed
  qed
qed

lemma transfer_loop_mono:
  "transfer_loop tr transferred oldTotal attempts = Some (result, transferred', total') \<Longrightarrow>
   transferred \<le> transferred'"
proof (induction tr transferred oldTotal attempts rule: transfer_loop.induct)
  case (1 tr transferred total0)
  then show ?case by simp
next
  case (2 tr transferred total0 killed rest)
  then show ?case by (auto split: if_splits)
next
  case (3 tr transferred total0 rest)
  then show ?case by simp
next
  case (4 tr transferred total0 rest)
  then show ?case by simp
next
  case (5 tr transferred total0 reply steps trailer rest)
  show ?case
  proof (cases "rp_Status reply = Some Reply_RESUME_PAST_END_OF_FILE")
    case True
    with "5.prems" show ?thesis by simp
  next
    case nr: False
    show ?thesis
    proof (cases "replyToError reply")
      case (Some st)
      with nr "5.prems" show ?thesis by simp
    next
      case ne: None
      show ?thesis
      proof (cases "ProcessReply tr reply")
        case (Inl err)
        with nr ne "5.prems" show ?thesis by simp
      next
        case (Inr x)
        then obtain isUpload newTotal isComplete where
          p: "ProcessReply tr reply = Inr (isUpload, newTotal, isComplete)"
          by (cases x) auto
        show ?thesis
        proof (cases isComplete)
          case True
          with nr ne p "5.prems" show ?thesis by simp
        next
          case nc: False
          show ?thesis
          proof (cases "copy_loop isUpload newTotal transferred False steps")
            case None
            with nr ne p nc "5.prems" show ?thesis by simp
          next
            case (Some y)
            then obtain how counted closed where
              c: "copy_loop isUpload newTotal transferred False steps = Some (how, counted, closed)"
              by (cases y) auto
            note m = copy_loop_mono [OF c]
            show ?thesis
            proof (cases how)
              case Canceled
              with nr ne p nc c m "5.prems" show ?thesis by simp
            next
              case (Aborted err)
              with nr ne p nc c m "5.prems" show ?thesis by simp
            next
              case EndOfInput
              show ?thesis
              proof (cases "counted < newTotal")
                case True
                with nr ne p nc c EndOfInput "5.prems"
                have "transfer_loop tr counted newTotal rest = Some (result, transferred', total')"
                  by simp
                with "5.IH"(1) [OF nr ne p refl refl nc c refl EndOfInput refl True] m show ?thesis
                  by force
              next
                case False
                show ?thesis
                proof (cases "Complete isUpload closed trailer")
                  case True
                  with nr ne p nc c EndOfInput False m "5.prems" show ?thesis by simp
                next
                  case nk: False
                  with nr ne p nc c EndOfInput False "5.prems"
                  have "transfer_loop tr counted newTotal rest = Some (result, transferred', total')"
                    by simp
                  with "5.IH"(2) [OF nr ne p refl refl nc c refl EndOfInput refl False nk] m
                  show ?thesis by force
                qed
              qed
            qed
          qed
        qed
      qed
    qed
  qed
qed

lemma attempt_not_successful:
  assumes "rp_Status reply \<noteq> Some Reply_RESUME_PAST_END_OF_FILE" "replyToError reply = None"
    and "ProcessReply tr reply = Inr (True, newTotal, False)"
    and "1 \<le> transferred" "0 < newTotal" "file_delivers (nat newTotal) steps"
    and "transfer_loop tr transferred oldTotal (Exchange reply steps trailer # rest) =
           Some (None, final, lastTotal)"
  shows "\<exists>counted. transferred \<le> counted \<and>
           transfer_loop tr counted newTotal rest = Some (None, final, lastTotal)"
proof (cases "copy_loop True newTotal transferred False steps")
  case None
  with assms show ?thesis by simp
next
  case (Some y)
  then obtain how counted closed where
    c: "copy_loop True newTotal transferred False steps = Some (how, counted, closed)"
    by (cases y) auto
  note m = copy_loop_mono [OF c]
  show ?thesis
  proof (cases how)
    case Canceled
    with assms c show ?thesis by simp
  next
    case (Aborted err)
    with assms c show ?thesis by simp
  next
    case EndOfInput
    from assms(4,5) have "False \<or> (newTotal < transferred + int (nat newTotal) \<and> 0 < nat newTotal)"
      by simp
    with upload_ends_closed [OF assms(6) _ c [unfolded EndOfInput]] have closed by blast
    with assms(1,2,3,7) c EndOfInput
    have "transfer_loop tr counted newTotal rest = Some (None, final, lastTotal)"
      by (simp add: Complete_def split: if_splits)
    with m show ?thesis by blast
  qed
qed

text \<open>
  C10, as the code has it. \<open>transferred\<close> is carried from one attempt to the next and
  never decreases, in one attempt or over the whole transfer, while \<open>total\<close> is set
  anew by each reply, to the size of the file less the resume offset of the reply for an
  upload, and to the size in the reply less the resume offset of the request for a
  download: an attempt whose input ends before \<open>total\<close> is reached is followed by the
  next attempt with the count it ended with. So when a transfer, upload or download, has
  counted at least one byte, and a later attempt gets a reply with no status or the
  status OK that leaves something to transfer, and then reads and writes as many bytes as
  the new total with no cancel signal and no failure, the guard fires: the transfer
  returns "transferred more than the expected amount", with a count above the new total
  and at most the earlier count plus the new total. And such an attempt of an upload,
  when the reads give what is left of the file, never ends the transfer without an error,
  whatever else happens in it: a return without error comes from a later attempt.
\<close>

theorem resumed_transfer_hits_the_guard:
  "(rp_Status reply \<noteq> Some Reply_RESUME_PAST_END_OF_FILE \<and> replyToError reply = None \<and>
    ProcessReply tr reply = Inr (isUpload, newTotal, False) \<and>
    copy_loop isUpload newTotal transferred False steps = Some (EndOfInput, counted, closed) \<and>
    counted < newTotal \<longrightarrow>
      transfer_loop tr transferred oldTotal (Exchange reply steps trailer # rest) =
        transfer_loop tr counted newTotal rest \<and> transferred \<le> counted)
   \<and> (rp_Upload reply = Some (Some offset) \<and> 0 \<le> offset \<and> offset \<noteq> fileSize \<longrightarrow>
        ProcessReply (uploadTransfer i fileSize) reply = Inr (True, fileSize - offset, False))
   \<and> (rp_Download reply = Some serverSize \<and> resumeAt \<le> serverSize \<longrightarrow>
        ProcessReply (downloadTransfer fileID resumeAt sender) reply =
          Inr (False, serverSize - resumeAt, False))
   \<and> (1 \<le> transferred \<and> rp_Status reply \<noteq> Some Reply_RESUME_PAST_END_OF_FILE \<and>
       replyToError reply = None \<and> ProcessReply tr reply = Inr (isUpload, newTotal, False) \<and>
       0 < newTotal \<and> int (sum_list ns) = newTotal \<longrightarrow>
      (\<exists>reached.
         transfer_loop tr transferred oldTotal
           (Exchange reply (map (\<lambda>n. Chunk n True) ns @ later) trailer # rest) =
           Some (Some guard_error, reached, newTotal) \<and>
         newTotal < reached \<and> reached \<le> transferred + newTotal))
   \<and> (1 \<le> transferred \<and> rp_Status reply \<noteq> Some Reply_RESUME_PAST_END_OF_FILE \<and>
       replyToError reply = None \<and> ProcessReply tr reply = Inr (True, newTotal, False) \<and>
       0 < newTotal \<and> file_delivers (nat newTotal) steps \<and>
       transfer_loop tr transferred oldTotal (Exchange reply steps trailer # rest) =
         Some (None, final, lastTotal) \<longrightarrow>
      (\<exists>carried. transferred \<le> carried \<and>
         transfer_loop tr carried newTotal rest = Some (None, final, lastTotal)))
   \<and> (transfer_loop tr transferred oldTotal attempts = Some (result, final, lastTotal) \<longrightarrow>
        transferred \<le> final)"
proof (intro conjI impI)
  assume "transfer_loop tr transferred oldTotal attempts = Some (result, final, lastTotal)"
  then show "transferred \<le> final" by (rule transfer_loop_mono)
next
  assume a: "rp_Status reply \<noteq> Some Reply_RESUME_PAST_END_OF_FILE \<and> replyToError reply = None \<and>
    ProcessReply tr reply = Inr (isUpload, newTotal, False) \<and>
    copy_loop isUpload newTotal transferred False steps = Some (EndOfInput, counted, closed) \<and>
    counted < newTotal"
  then show "transfer_loop tr transferred oldTotal (Exchange reply steps trailer # rest) =
        transfer_loop tr counted newTotal rest"
    by simp
  from a show "transferred \<le> counted" using copy_loop_mono by blast
next
  assume "rp_Upload reply = Some (Some offset) \<and> 0 \<le> offset \<and> offset \<noteq> fileSize"
  then show "ProcessReply (uploadTransfer i fileSize) reply = Inr (True, fileSize - offset, False)"
    by simp
next
  assume "rp_Download reply = Some serverSize \<and> resumeAt \<le> serverSize"
  then show "ProcessReply (downloadTransfer fileID resumeAt sender) reply =
          Inr (False, serverSize - resumeAt, False)"
    by simp
next
  assume a: "1 \<le> transferred \<and> rp_Status reply \<noteq> Some Reply_RESUME_PAST_END_OF_FILE \<and>
       replyToError reply = None \<and> ProcessReply tr reply = Inr (isUpload, newTotal, False) \<and>
       0 < newTotal \<and> int (sum_list ns) = newTotal"
  then have "ns \<noteq> []" by auto
  moreover from a have "transferred + int (sum_list ns) > newTotal" by simp
  ultimately obtain t' where
    c: "copy_loop isUpload newTotal transferred False (map (\<lambda>n. Chunk n True) ns @ later) =
        Some (Aborted ''transferred more than the expected amount'', t', True)"
    and b: "newTotal < t'" "t' \<le> transferred + int (sum_list ns)"
    using copy_loop_guard [of ns newTotal transferred isUpload later] by blast
  from a c have "transfer_loop tr transferred oldTotal
           (Exchange reply (map (\<lambda>n. Chunk n True) ns @ later) trailer # rest) =
           Some (Some guard_error, t', newTotal)"
    by (simp add: guard_error_def)
  with b a show "\<exists>reached.
         transfer_loop tr transferred oldTotal
           (Exchange reply (map (\<lambda>n. Chunk n True) ns @ later) trailer # rest) =
           Some (Some guard_error, reached, newTotal) \<and>
         newTotal < reached \<and> reached \<le> transferred + newTotal"
    by auto
next
  assume a: "1 \<le> transferred \<and> rp_Status reply \<noteq> Some Reply_RESUME_PAST_END_OF_FILE \<and>
       replyToError reply = None \<and> ProcessReply tr reply = Inr (True, newTotal, False) \<and>
       0 < newTotal \<and> file_delivers (nat newTotal) steps \<and>
       transfer_loop tr transferred oldTotal (Exchange reply steps trailer # rest) =
         Some (None, final, lastTotal)"
  then show "\<exists>carried. transferred \<le> carried \<and>
         transfer_loop tr carried newTotal rest = Some (None, final, lastTotal)"
    using attempt_not_successful [of reply tr newTotal transferred steps oldTotal trailer rest
        final lastTotal]
    by blast
qed

text \<open>
  Replies to an upload request, with no resume offset or with one and with no status, and
  a reply with the status OK to a download request.
\<close>

definition upload_reply :: "int option \<Rightarrow> Reply" where
  "upload_reply resume =
     \<lparr>rp_Status = None, rp_Fetched = None, rp_Announce = None, rp_Upload = Some resume,
      rp_Download = None, rp_Revocation = None\<rparr>"

definition download_reply :: "int \<Rightarrow> Reply" where
  "download_reply serverSize =
     \<lparr>rp_Status = Some Reply_OK, rp_Fetched = None, rp_Announce = None, rp_Upload = None,
      rp_Download = Some serverSize, rp_Revocation = None\<rparr>"

text \<open>
  A first attempt at a file of 32768 bytes: the first 16384 bytes are written, the write
  of the other 16384 fails, and the file ends.
\<close>

definition first_attempt :: attempt where
  "first_attempt = Exchange (upload_reply None) [Chunk 16384 True, Chunk 16384 False, Eof] False"

text \<open>
  The first attempt is followed by the next with a count of 16384. An upload resumed at
  8192 and a download of 32768 bytes, both with that count, end by the guard. An upload
  resumed at 16384 whose only write fails is not ended by the zero byte of the server: it
  is the attempt after it that ends the transfer.
\<close>

theorem resumed_transfer_hits_the_guard_witness:
  "transferDetachment (uploadTransfer 1 32768) [first_attempt] =
     transfer_loop (uploadTransfer 1 32768) 16384 32768 [] \<and>
   ProcessReply (uploadTransfer 1 32768) (upload_reply (Some 8192)) = Inr (True, 24576, False) \<and>
   ProcessReply (downloadTransfer 1 4096 (dh 0)) (download_reply 36864) = Inr (False, 32768, False) \<and>
   (\<exists>reached.
      transfer_loop (uploadTransfer 1 32768) 16384 32768
        [Exchange (upload_reply (Some 8192)) (map (\<lambda>n. Chunk n True) [16384, 8192] @ [Eof]) True] =
        Some (Some guard_error, reached, 24576) \<and>
      24576 < reached \<and> reached \<le> 40960) \<and>
   (\<exists>reached.
      transfer_loop (downloadTransfer 1 4096 (dh 0)) 16384 32768
        [Exchange (download_reply 36864) (map (\<lambda>n. Chunk n True) [16384, 16384] @ [Eof]) True] =
        Some (Some guard_error, reached, 32768) \<and>
      32768 < reached \<and> reached \<le> 49152) \<and>
   file_delivers 16384 [Chunk 16384 False, Eof] \<and>
   transfer_loop (uploadTransfer 1 32768) 16384 32768
     [Exchange (upload_reply (Some 16384)) [Chunk 16384 False, Eof] True,
      Exchange (upload_reply (Some 32768)) [] True] = Some (None, 16384, 0) \<and>
   (\<exists>carried. 16384 \<le> carried \<and>
      transfer_loop (uploadTransfer 1 32768) carried 16384
        [Exchange (upload_reply (Some 32768)) [] True] = Some (None, 16384, 0))"
proof -
  have s: "rp_Status (upload_reply r) = None" "rp_Upload (upload_reply r) = Some r"
    "replyToError (upload_reply r) = None" for r
    by (simp_all add: upload_reply_def replyToError_def)
  have d: "rp_Status (download_reply n) = Some Reply_OK" "rp_Download (download_reply n) = Some n"
    "replyToError (download_reply n) = None" for n
    by (simp_all add: download_reply_def replyToError_def)
  have 1: "transferDetachment (uploadTransfer 1 32768) [first_attempt] =
           transfer_loop (uploadTransfer 1 32768) 16384 32768 []"
    using resumed_transfer_hits_the_guard [where reply = "upload_reply None"
        and tr = "uploadTransfer 1 32768" and isUpload = True and newTotal = 32768
        and transferred = 0 and steps = "[Chunk 16384 True, Chunk 16384 False, Eof]"
        and counted = 16384 and closed = True and oldTotal = 0 and trailer = False
        and rest = "[]" and ns = "[]"]
    by (simp add: transferDetachment_def first_attempt_def s)
  have 2: "ProcessReply (uploadTransfer 1 32768) (upload_reply (Some 8192)) = Inr (True, 24576, False)"
    "ProcessReply (downloadTransfer 1 4096 (dh 0)) (download_reply 36864) = Inr (False, 32768, False)"
    by (simp_all add: s d)
  have 3: "\<exists>reached.
      transfer_loop (uploadTransfer 1 32768) 16384 32768
        [Exchange (upload_reply (Some 8192)) (map (\<lambda>n. Chunk n True) [16384, 8192] @ [Eof]) True] =
        Some (Some guard_error, reached, 24576) \<and>
      24576 < reached \<and> reached \<le> 40960"
    using resumed_transfer_hits_the_guard [where reply = "upload_reply (Some 8192)"
        and tr = "uploadTransfer 1 32768" and isUpload = True and newTotal = 24576
        and transferred = 16384 and ns = "[16384, 8192]" and later = "[Eof]" and trailer = True
        and rest = "[]" and oldTotal = 32768 and steps = "[]"]
    by (simp add: s 2)
  have 4: "\<exists>reached.
      transfer_loop (downloadTransfer 1 4096 (dh 0)) 16384 32768
        [Exchange (download_reply 36864) (map (\<lambda>n. Chunk n True) [16384, 16384] @ [Eof]) True] =
        Some (Some guard_error, reached, 32768) \<and>
      32768 < reached \<and> reached \<le> 49152"
    using resumed_transfer_hits_the_guard [where reply = "download_reply 36864"
        and tr = "downloadTransfer 1 4096 (dh 0)" and isUpload = False and newTotal = 32768
        and transferred = 16384 and ns = "[16384, 16384]" and later = "[Eof]" and trailer = True
        and rest = "[]" and oldTotal = 32768 and steps = "[]"]
    by (simp add: d 2)
  have 5: "transfer_loop (uploadTransfer 1 32768) 16384 32768
     [Exchange (upload_reply (Some 16384)) [Chunk 16384 False, Eof] True,
      Exchange (upload_reply (Some 32768)) [] True] = Some (None, 16384, 0)"
    by (simp add: s Complete_def)
  have 6: "\<exists>carried. 16384 \<le> carried \<and>
      transfer_loop (uploadTransfer 1 32768) carried 16384
        [Exchange (upload_reply (Some 32768)) [] True] = Some (None, 16384, 0)"
    using resumed_transfer_hits_the_guard [where reply = "upload_reply (Some 16384)"
        and tr = "uploadTransfer 1 32768" and newTotal = 16384 and transferred = 16384
        and steps = "[Chunk 16384 False, Eof]" and trailer = True
        and rest = "[Exchange (upload_reply (Some 32768)) [] True]" and oldTotal = 32768
        and final = 16384 and lastTotal = 0 and ns = "[]"] 5
    by (simp add: s)
  have 7: "file_delivers 16384 [Chunk 16384 False, Eof]" by simp
  from 1 2 3 4 5 6 7 show ?thesis by blast
qed

text \<open>
  C10 as stated fails: of three uploads of 32768 bytes whose first attempt moved 16384
  bytes and which were resumed at an offset that is not zero, the first returns the
  guard's error only when its count has reached the size of the file, the second is told
  that the whole file is there and returns without error, and the third is cancelled. A
  download of a file of 36864 bytes from the offset 4096, whose first attempt ended after
  16384 bytes, returns the guard's error only with a count of 49152.
\<close>

theorem resumed_upload_other_outcomes:
  "transferDetachment (uploadTransfer 1 32768)
     [first_attempt, Exchange (upload_reply (Some 16384)) [Chunk 16384 True, Eof] True] =
     Some (Some guard_error, 32768, 16384)
   \<and> transferDetachment (uploadTransfer 1 32768)
       [first_attempt, Exchange (upload_reply (Some 32768)) [] True] = Some (None, 16384, 0)
   \<and> transferDetachment (uploadTransfer 1 32768)
       [first_attempt, Exchange (upload_reply (Some 16384)) [Killed] True] =
       Some (Some backgroundCanceledError, 16384, 16384)
   \<and> transferDetachment (downloadTransfer 1 4096 (dh 0))
       [Exchange (download_reply 36864) [Chunk 16384 True, Eof] True,
        Exchange (download_reply 36864) [Chunk 16384 True, Chunk 16384 True, Eof] True] =
       Some (Some guard_error, 49152, 32768)"
  by (simp add: transferDetachment_def first_attempt_def upload_reply_def download_reply_def
      replyToError_def guard_error_def Complete_def)

end
